theory Spec2Isabelle
  imports Complex_Main "HOL-Library.Log_Nat"
begin

section \<open>Data model (src/src/App.tsx, lines 12-49)\<close>

text \<open>
  The tracker keeps a list of practice entries. A calendar date is the string
  \<^verbatim>\<open>YYYY-MM-DD\<close> that the date input produces; it is held here as its three numbers,
  so that equality of two dates is equality of the strings. The set counts and the
  question counts are integers (a JavaScript number represents them exactly, and
  their sums, below \<open>2\<^sup>5\<^sup>3\<close>), the minutes are a rational number. The accuracy and
  the speed, which the source prints with two decimals, are computed as the source
  computes them, in double precision (see \<open>roundToDouble\<close> below). The quotients of
  the goal progress and of the week number are exact rationals: the rounding of
  IEEE doubles is not modelled for them.
\<close>

datatype subject = LR | DI | QUANT | VARC

record isodate =
  year :: int
  month :: int
  day :: int

record entry =
  entry_id :: string
  date :: isodate
  subject :: subject
  topic :: string
  lrSets :: int
  diSets :: int
  vaultSets :: int
  sectionalSets :: int
  timeTaken :: rat
  questionsAttempted :: int
  correctAnswers :: int
  confidence :: int
  learnings :: string
  isWeakTopic :: bool

text \<open>
  \<^verbatim>\<open>Partial<Entry>\<close>: every field may be absent. The helper functions read only the
  numeric fields below.
\<close>

record partial_entry =
  p_lrSets :: "int option"
  p_diSets :: "int option"
  p_vaultSets :: "int option"
  p_sectionalSets :: "int option"
  p_timeTaken :: "rat option"
  p_questionsAttempted :: "int option"
  p_correctAnswers :: "int option"

definition asPartial :: "entry \<Rightarrow> partial_entry" where
  "asPartial e =
     \<lparr>p_lrSets = Some (lrSets e), p_diSets = Some (diSets e),
      p_vaultSets = Some (vaultSets e), p_sectionalSets = Some (sectionalSets e),
      p_timeTaken = Some (timeTaken e),
      p_questionsAttempted = Some (questionsAttempted e),
      p_correctAnswers = Some (correctAnswers e)\<rparr>"

section \<open>Double precision\<close>

text \<open>
  A JavaScript number is an IEEE 754 double: a multiple \<open>m * 2\<^sup>e\<^sup>-\<^sup>5\<^sup>2\<close> of a power of
  two with \<open>m < 2\<^sup>5\<^sup>3\<close>. A quotient or a product is the exact result rounded to the
  nearest double, and to the one with the even \<open>m\<close> when two are equally near.
  \<open>binaryExponent\<close> is the \<open>e\<close> with \<open>2\<^sup>e \<le> x < 2\<^sup>e\<^sup>+\<^sup>1\<close>, found from the bit lengths of
  numerator and denominator. The range of the exponent is not bounded here:
  overflow and underflow, which a quotient of two counts times 100 cannot reach,
  are not modelled.
\<close>

definition roundHalfEven :: "rat \<Rightarrow> int" where
  "roundHalfEven y =
     (let n = \<lfloor>y\<rfloor>; r = y - of_int n
      in if r < 1 / 2 then n else if 1 / 2 < r then n + 1 else if even n then n else n + 1)"

definition binaryExponent :: "rat \<Rightarrow> int" where
  "binaryExponent x =
     (let k = bitlen (fst (quotient_of x)) - bitlen (snd (quotient_of x))
      in if 2 powi k \<le> x then k else k - 1)"

definition roundToDouble :: "rat \<Rightarrow> rat" where
  "roundToDouble x =
     (if x = 0 then 0
      else let u = 2 powi (binaryExponent \<bar>x\<bar> - 52)
           in sgn x * of_int (roundHalfEven (\<bar>x\<bar> / u)) * u)"

text \<open>
  \<^verbatim>\<open>x.toFixed(2)\<close> is the decimal numeral with two digits after the point that is
  nearest to the exact value of the double \<open>x\<close>, the larger one of two that are
  equally near (for a negative number, of its absolute value); \<open>toFixed2\<close> is the
  value of that numeral. \<^verbatim>\<open>parseFloat\<close> reads the numeral as the nearest double.
\<close>

definition toFixed2 :: "rat \<Rightarrow> rat" where
  "toFixed2 x =
     (if x < 0 then - (of_int \<lfloor>- x * 100 + 1 / 2\<rfloor> / 100)
      else of_int \<lfloor>x * 100 + 1 / 2\<rfloor> / 100)"

definition parseFloatFixed2 :: "rat \<Rightarrow> rat" where
  "parseFloatFixed2 x = roundToDouble (toFixed2 x)"

section \<open>Helper functions (lines 78-89)\<close>

text \<open>\<^verbatim>\<open>x || 0\<close> on a number that may be absent: \<^verbatim>\<open>undefined\<close> and 0 both give 0.\<close>

fun orZero :: "'a::zero option \<Rightarrow> 'a" where
  "orZero None = 0"
| "orZero (Some v) = v"

definition calculateTotalSets :: "partial_entry \<Rightarrow> int" where
  "calculateTotalSets entry =
     orZero (p_lrSets entry) + orZero (p_diSets entry)
       + orZero (p_vaultSets entry) + orZero (p_sectionalSets entry)"

definition calculateAccuracy :: "partial_entry \<Rightarrow> rat" where
  "calculateAccuracy entry =
     (case p_questionsAttempted entry of
        None \<Rightarrow> 0
      | Some q \<Rightarrow>
          if q = 0 then 0
          else roundToDouble
                 (roundToDouble (of_int (orZero (p_correctAnswers entry)) / of_int q) * 100))"

definition calculateSpeed :: "partial_entry \<Rightarrow> rat" where
  "calculateSpeed entry =
     (let totalSets = calculateTotalSets entry
      in if totalSets = 0 then 0
         else roundToDouble (orZero (p_timeTaken entry) / of_int totalSets))"

section \<open>DailyTargetProgress (lines 119-134)\<close>

text \<open>
  \<^verbatim>\<open>todayStr\<close> is read from the clock in the source; here it is an argument.
  \<^verbatim>\<open>reduce\<close> is a left fold from 0.
\<close>

datatype bar_color = BgSuccess | BgYellow400 | BgPrimary

definition setsToday :: "entry list \<Rightarrow> isodate \<Rightarrow> int" where
  "setsToday entries todayStr =
     foldl (\<lambda>sum e. sum + calculateTotalSets (asPartial e)) 0
       (filter (\<lambda>e. date e = todayStr) entries)"

definition progress :: "entry list \<Rightarrow> isodate \<Rightarrow> rat \<Rightarrow> rat" where
  "progress entries todayStr dailyTarget =
     (if dailyTarget > 0
      then min ((of_int (setsToday entries todayStr) / dailyTarget) * 100) 100
      else 0)"

definition barColor :: "entry list \<Rightarrow> isodate \<Rightarrow> rat \<Rightarrow> bar_color" where
  "barColor entries todayStr dailyTarget =
     (if of_int (setsToday entries todayStr) \<ge> dailyTarget then BgSuccess
      else if progress entries todayStr dailyTarget > 50 then BgYellow400
      else BgPrimary)"

text \<open>
  The component's state: the stored target (\<^verbatim>\<open>dailyTarget\<close>, written through to
  local storage by \<^verbatim>\<open>setDailyTarget\<close>), the edit flag and the draft typed into the
  input.
\<close>

record target_state =
  dailyTarget :: rat
  isEditing :: bool
  target :: rat

definition handleSave :: "target_state \<Rightarrow> target_state" where
  "handleSave s =
     (if target s > 0 then s\<lparr>dailyTarget := target s, isEditing := False\<rparr> else s)"

section \<open>The Date built-ins that the charts call\<close>

text \<open>
  A \<^verbatim>\<open>Date\<close> is its time value: the milliseconds since 1970-01-01T00:00Z, an
  integer. The functions below follow the abstract operations of ECMA-262 (Day,
  DaysInYear, DayFromYear, YearFromTime, MonthFromTime, WeekDay, MakeDay). Local
  time is the time value plus a fixed offset \<open>tz\<close> in milliseconds, which every
  function that reads local time takes as its first argument; a change of the
  offset during the year (daylight saving) is not modelled, nor is an invalid date.
\<close>

definition msPerDay :: int where
  "msPerDay = 86400000"

definition Day :: "int \<Rightarrow> int" where
  "Day t = t div msPerDay"

definition DaysInYear :: "int \<Rightarrow> int" where
  "DaysInYear y =
     (if y mod 4 \<noteq> 0 then 365
      else if y mod 100 \<noteq> 0 then 366
      else if y mod 400 \<noteq> 0 then 365
      else 366)"

definition DayFromYear :: "int \<Rightarrow> int" where
  "DayFromYear y =
     365 * (y - 1970) + (y - 1969) div 4 - (y - 1901) div 100 + (y - 1601) div 400"

definition TimeFromYear :: "int \<Rightarrow> int" where
  "TimeFromYear y = msPerDay * DayFromYear y"

text \<open>
  The first day of the next year is the first day of this one plus its length; the
  search for the year of a day rests on it.
\<close>

lemma div_succ:
  fixes a k :: int
  assumes "0 < k"
  shows "(a + 1) div k = a div k + (if (a + 1) mod k = 0 then 1 else 0)"
proof (cases "(a + 1) mod k = 0")
  case True
  then obtain q where q: "a + 1 = k * q" by (auto simp: mod_eq_0_iff_dvd)
  then have a: "a = k * (q - 1) + (k - 1)" by (simp add: algebra_simps)
  have "(k * (q - 1) + (k - 1)) div k = q - 1"
    using assms by (simp add: div_pos_pos_trivial)
  with a have "a div k = q - 1" by simp
  moreover have "(a + 1) div k = q" using q assms by simp
  ultimately show ?thesis using True by simp
next
  case False
  define r where "r = a mod k"
  have r: "0 \<le> r" "r < k" using assms by (simp_all add: r_def)
  have "r + 1 \<noteq> k"
  proof
    assume rk: "r + 1 = k"
    have "(a + 1) mod k = (a mod k + 1) mod k" by (simp add: mod_add_left_eq)
    also have "\<dots> = k mod k" using rk by (simp add: r_def)
    finally have "(a + 1) mod k = 0" by simp
    with False show False by simp
  qed
  with r have r1: "0 \<le> r + 1" "r + 1 < k" by simp_all
  have "a + 1 = k * (a div k) + (r + 1)" unfolding r_def by simp
  then have "(a + 1) div k = (k * (a div k) + (r + 1)) div k" by (rule arg_cong)
  also have "\<dots> = a div k + (r + 1) div k" using assms by simp
  also have "(r + 1) div k = 0" using r1 by (simp add: div_pos_pos_trivial)
  finally show ?thesis using False by simp
qed

lemma DayFromYear_Suc: "DayFromYear (y + 1) = DayFromYear y + DaysInYear y"
proof -
  have m4: "(y - 1969 + 1) mod 4 = y mod 4"
  proof -
    have "(y - 1969 + 1) mod 4 = (y + (- 492) * 4) mod 4" by simp
    also have "\<dots> = y mod 4" by (rule mod_mult_self1)
    finally show ?thesis .
  qed
  have m100: "(y - 1901 + 1) mod 100 = y mod 100"
  proof -
    have "(y - 1901 + 1) mod 100 = (y + (- 19) * 100) mod 100" by simp
    also have "\<dots> = y mod 100" by (rule mod_mult_self1)
    finally show ?thesis .
  qed
  have m400: "(y - 1601 + 1) mod 400 = y mod 400"
  proof -
    have "(y - 1601 + 1) mod 400 = (y + (- 4) * 400) mod 400" by simp
    also have "\<dots> = y mod 400" by (rule mod_mult_self1)
    finally show ?thesis .
  qed
  have e4: "(y + 1 - 1969) div 4 = (y - 1969) div 4 + (if y mod 4 = 0 then 1 else 0)"
    using div_succ [of 4 "y - 1969"] m4 by (simp add: algebra_simps)
  have e100: "(y + 1 - 1901) div 100 = (y - 1901) div 100 + (if y mod 100 = 0 then 1 else 0)"
    using div_succ [of 100 "y - 1901"] m100 by (simp add: algebra_simps)
  have e400: "(y + 1 - 1601) div 400 = (y - 1601) div 400 + (if y mod 400 = 0 then 1 else 0)"
    using div_succ [of 400 "y - 1601"] m400 by (simp add: algebra_simps)
  have d1: "y mod 100 = 0 \<Longrightarrow> y mod 4 = 0"
  proof -
    assume "y mod 100 = 0"
    then have "100 dvd y" by (simp add: mod_eq_0_iff_dvd)
    moreover have "(4::int) dvd 100" by simp
    ultimately have "4 dvd y" by (rule dvd_trans [rotated])
    then show ?thesis by (simp add: mod_eq_0_iff_dvd)
  qed
  have d2: "y mod 400 = 0 \<Longrightarrow> y mod 100 = 0"
  proof -
    assume "y mod 400 = 0"
    then have "400 dvd y" by (simp add: mod_eq_0_iff_dvd)
    moreover have "(100::int) dvd 400" by simp
    ultimately have "100 dvd y" by (rule dvd_trans [rotated])
    then show ?thesis by (simp add: mod_eq_0_iff_dvd)
  qed
  show ?thesis
    unfolding DayFromYear_def DaysInYear_def e4 e100 e400
    using d1 d2 by auto
qed

lemma DaysInYear_bounds: "365 \<le> DaysInYear y \<and> DaysInYear y \<le> 366"
  by (simp add: DaysInYear_def)

lemma DayFromYear_step: "DayFromYear y + 365 \<le> DayFromYear (y + 1)"
  using DaysInYear_bounds [of y] by (simp add: DayFromYear_Suc)

text \<open>
  YearFromTime is the largest year whose first day is not after the day of \<open>t\<close>.
  It is found by stepping up from a year that is not after it: a year has at most
  366 days, and at least 365.
\<close>

function yearUp :: "int \<Rightarrow> int \<Rightarrow> int" where
  "yearUp y d = (if DayFromYear (y + 1) \<le> d then yearUp (y + 1) d else y)"
  by pat_completeness auto
termination
proof (relation "measure (\<lambda>(y, d). nat (d + 1 - DayFromYear (y + 1)))")
  show "wf (measure (\<lambda>(y, d). nat (d + 1 - DayFromYear (y + 1))))" by simp
next
  fix y d :: int
  assume "DayFromYear (y + 1) \<le> d"
  moreover have "DayFromYear (y + 1) + 365 \<le> DayFromYear (y + 1 + 1)"
    by (rule DayFromYear_step)
  ultimately show "((y + 1, d), (y, d)) \<in> measure (\<lambda>(y, d). nat (d + 1 - DayFromYear (y + 1)))"
    by simp
qed

declare yearUp.simps [simp del]

definition YearFromTime :: "int \<Rightarrow> int" where
  "YearFromTime t =
     (let d = Day t
      in yearUp (1970 + (if 0 \<le> d then d div 366 else d div 365)) d)"

definition InLeapYear :: "int \<Rightarrow> int" where
  "InLeapYear t = (if DaysInYear (YearFromTime t) = 366 then 1 else 0)"

definition DayWithinYear :: "int \<Rightarrow> int" where
  "DayWithinYear t = Day t - DayFromYear (YearFromTime t)"

definition MonthFromTime :: "int \<Rightarrow> int" where
  "MonthFromTime t =
     (let d = DayWithinYear t; l = InLeapYear t
      in if d < 31 then 0
         else if d < 59 + l then 1
         else if d < 90 + l then 2
         else if d < 120 + l then 3
         else if d < 151 + l then 4
         else if d < 181 + l then 5
         else if d < 212 + l then 6
         else if d < 243 + l then 7
         else if d < 273 + l then 8
         else if d < 304 + l then 9
         else if d < 334 + l then 10
         else 11)"

text \<open>Sunday is 0; 1970-01-01 was a Thursday.\<close>

definition WeekDay :: "int \<Rightarrow> int" where
  "WeekDay t = (Day t + 4) mod 7"

text \<open>
  The day number of the first of month \<open>mn\<close> (0 to 11) within a year, and MakeDay:
  the month may lie outside 0 to 11 and then carries into the year.
\<close>

definition monthStart :: "int \<Rightarrow> int \<Rightarrow> int" where
  "monthStart y mn =
     [0, 31, 59, 90, 120, 151, 181, 212, 243, 273, 304, 334] ! nat mn
       + (if 2 \<le> mn \<and> DaysInYear y = 366 then 1 else 0)"

definition MakeDay :: "int \<Rightarrow> int \<Rightarrow> int \<Rightarrow> int" where
  "MakeDay yr m dt =
     (let ym = yr + m div 12; mn = m mod 12
      in DayFromYear ym + monthStart ym mn + dt - 1)"

text \<open>
  \<^verbatim>\<open>new Date("YYYY-MM-DD")\<close>: a date-only string is midnight UTC of that day.
\<close>

definition parseDate :: "isodate \<Rightarrow> int" where
  "parseDate d = msPerDay * MakeDay (year d) (month d - 1) (day d)"

text \<open>
  \<^verbatim>\<open>new Date(y, m, d)\<close>: local midnight of that day; a year from 0 to 99 means
  1900 + y.
\<close>

definition newDate :: "int \<Rightarrow> int \<Rightarrow> int \<Rightarrow> int \<Rightarrow> int" where
  "newDate tz y m d =
     (let yr = (if 0 \<le> y \<and> y \<le> 99 then 1900 + y else y)
      in msPerDay * MakeDay yr m d - tz)"

definition getFullYear :: "int \<Rightarrow> int \<Rightarrow> int" where
  "getFullYear tz t = YearFromTime (t + tz)"

definition getMonth :: "int \<Rightarrow> int \<Rightarrow> int" where
  "getMonth tz t = MonthFromTime (t + tz)"

definition getDay :: "int \<Rightarrow> int \<Rightarrow> int" where
  "getDay tz t = WeekDay (t + tz)"

text \<open>A date of the calendar: the month from 1 to 12, the day within the month.\<close>

definition daysInMonth :: "int \<Rightarrow> int \<Rightarrow> int" where
  "daysInMonth y m =
     (if m = 2 then (if DaysInYear y = 366 then 29 else 28)
      else if m = 4 \<or> m = 6 \<or> m = 9 \<or> m = 11 then 30
      else 31)"

definition valid_date :: "isodate \<Rightarrow> bool" where
  "valid_date d \<longleftrightarrow>
     1 \<le> month d \<and> month d \<le> 12 \<and> 1 \<le> day d \<and> day d \<le> daysInMonth (year d) (month d)"

section \<open>PerformanceCharts (lines 197-253)\<close>

datatype time_period = Daily | Weekly | Monthly

datatype selection = Overall | Only subject

text \<open>
  \<^verbatim>\<open>getWeekLabel\<close> returns the text \<^verbatim>\<open>W\<close> followed by a number; the number is kept.
  \<^verbatim>\<open>pastDays\<close> is a quotient of milliseconds and need not be whole.
\<close>

definition getWeekLabel :: "int \<Rightarrow> int \<Rightarrow> int" where
  "getWeekLabel tz dt =
     (let firstDay = newDate tz (getFullYear tz dt) 0 1;
          pastDays = (of_int (dt - firstDay) :: rat) / 86400000
      in \<lceil>(pastDays + of_int (getDay tz firstDay) + 1) / 7\<rceil>)"

text \<open>
  The keys of \<^verbatim>\<open>groupedData\<close> are the texts \<^verbatim>\<open>2024-W9\<close> and \<^verbatim>\<open>2024-03\<close>; two of
  them are equal exactly when their two numbers are, so a key is kept as the pair.
\<close>

datatype bucket_key = WeekKey int int | MonthKey int int

definition groupKey :: "int \<Rightarrow> time_period \<Rightarrow> entry \<Rightarrow> bucket_key" where
  "groupKey tz timePeriod entry =
     (let dt = parseDate (date entry)
      in if timePeriod = Weekly
         then WeekKey (getFullYear tz dt) (getWeekLabel tz dt)
         else MonthKey (getFullYear tz dt) (getMonth tz dt + 1))"

text \<open>
  \<^verbatim>\<open>groupedData\<close> is an object used as a dictionary. Its keys are never array
  indices, so \<^verbatim>\<open>Object.entries\<close> lists them in the order of their creation: an
  association list, with a new key added at the end.
\<close>

fun pushGrouped :: "'k \<Rightarrow> 'v \<Rightarrow> ('k \<times> 'v list) list \<Rightarrow> ('k \<times> 'v list) list" where
  "pushGrouped key entry [] = [(key, [entry])]"
| "pushGrouped key entry ((k, es) # rest) =
     (if k = key then (k, es @ [entry]) # rest else (k, es) # pushGrouped key entry rest)"

definition groupedData :: "('v \<Rightarrow> 'k) \<Rightarrow> 'v list \<Rightarrow> ('k \<times> 'v list) list" where
  "groupedData keyOf sorted' = fold (\<lambda>entry g. pushGrouped (keyOf entry) entry g) sorted' []"

text \<open>
  A point of the chart. Its name is a text in the source: the short month and the
  day of the entry's date in daily mode, the key in weekly mode, the short month
  and the year of the key in monthly mode. The name is kept as the date's time
  value or as the key; how it is printed is not modelled.
\<close>

datatype label = DayLabel int | KeyLabel bucket_key

record chart_point =
  name :: label
  Accuracy :: rat
  TotalSets :: int

definition sliceLast :: "nat \<Rightarrow> 'a list \<Rightarrow> 'a list" where
  "sliceLast n xs = drop (length xs - n) xs"

text \<open>
  The accuracy of a point is \<^verbatim>\<open>parseFloat(accuracy.toFixed(2))\<close>: the accuracy, a
  double, printed with two decimals and read back as a double. In a bucket the
  accuracy is computed from the sums of the group.
\<close>

definition dailyPoint :: "entry \<Rightarrow> chart_point" where
  "dailyPoint entry =
     \<lparr>name = DayLabel (parseDate (date entry)),
      Accuracy = parseFloatFixed2 (calculateAccuracy (asPartial entry)),
      TotalSets = calculateTotalSets (asPartial entry)\<rparr>"

definition bucketPoint :: "bucket_key \<times> entry list \<Rightarrow> chart_point" where
  "bucketPoint kv =
     (case kv of (key, groupEntries) \<Rightarrow>
        let totalSets = foldl (\<lambda>sum e. sum + calculateTotalSets (asPartial e)) 0 groupEntries;
            totalCorrect = foldl (\<lambda>sum e. sum + correctAnswers e) 0 groupEntries;
            totalAttempted = foldl (\<lambda>sum e. sum + questionsAttempted e) 0 groupEntries;
            accuracy = (if totalAttempted > 0
                        then roundToDouble
                               (roundToDouble (of_int totalCorrect / of_int totalAttempted) * 100)
                        else 0)
        in \<lparr>name = KeyLabel key, Accuracy = parseFloatFixed2 accuracy,
            TotalSets = totalSets\<rparr>)"

definition filteredEntries :: "entry list \<Rightarrow> selection \<Rightarrow> entry list" where
  "filteredEntries entries selectedSubject =
     (case selectedSubject of
        Overall \<Rightarrow> entries
      | Only s \<Rightarrow> filter (\<lambda>e. subject e = s) entries)"

text \<open>
  \<^verbatim>\<open>sort\<close> with the difference of the two time values as comparator: ascending by
  time value and stable, as \<open>sort_key\<close> is.
\<close>

definition sortedEntries :: "entry list \<Rightarrow> selection \<Rightarrow> entry list" where
  "sortedEntries entries selectedSubject =
     sort_key (\<lambda>e. parseDate (date e)) (filteredEntries entries selectedSubject)"

definition chartData :: "int \<Rightarrow> entry list \<Rightarrow> time_period \<Rightarrow> selection \<Rightarrow> chart_point list" where
  "chartData tz entries timePeriod selectedSubject =
     (let sorted' = sortedEntries entries selectedSubject
      in if timePeriod = Daily then sliceLast 30 (map dailyPoint sorted')
         else map bucketPoint (groupedData (groupKey tz timePeriod) sorted'))"

text \<open>
  The form's initial state (lines 35-49), with the empty id: the entry that the
  examples below fill in.
\<close>

definition initialFormState :: "isodate \<Rightarrow> entry" where
  "initialFormState today =
     \<lparr>entry_id = [], date = today, subject = QUANT, topic = [],
      lrSets = 0, diSets = 0, vaultSets = 0, sectionalSets = 0, timeTaken = 0,
      questionsAttempted = 0, correctAnswers = 0, confidence = 3, learnings = [],
      isWeakTopic = False\<rparr>"

section \<open>The week of the specification\<close>

text \<open>
  The two quantities that the specification's formula for the week speaks of, in its
  words: the day of the year is the offset in days of the date from January 1 of
  its year, starting at 0; the first weekday of a year is the weekday of its
  January 1, with Sunday as 0.
\<close>

definition dayOfYear :: "isodate \<Rightarrow> int" where
  "dayOfYear d = (parseDate d - parseDate \<lparr>year = year d, month = 1, day = 1\<rparr>) div msPerDay"

definition firstWeekdayOfYear :: "int \<Rightarrow> int" where
  "firstWeekdayOfYear y = WeekDay (parseDate \<lparr>year = y, month = 1, day = 1\<rparr>)"

section \<open>The buckets of the specification\<close>

text \<open>
  The keys of a list in the order in which they first occur (\<open>remdups\<close> keeps the last
  occurrence of each element, so it is applied to the reversed list). The accuracy of
  a group as the specification words it is the summed correct answers over the summed
  attempts, times 100, and 0 when the summed attempts are 0: an exact number. What a
  bucket holds is \<open>roundedAccuracy\<close> of the two sums: that quotient and product as
  doubles, printed with two decimals and read back.
\<close>

definition firstSeen :: "'a list \<Rightarrow> 'a list" where
  "firstSeen xs = rev (remdups (rev xs))"

definition weightedAccuracy :: "entry list \<Rightarrow> rat" where
  "weightedAccuracy g =
     (if sum_list (map questionsAttempted g) = 0 then 0
      else of_int (sum_list (map correctAnswers g)) / of_int (sum_list (map questionsAttempted g)) * 100)"

definition roundedAccuracy :: "int \<Rightarrow> int \<Rightarrow> rat" where
  "roundedAccuracy c a =
     (if 0 < a then parseFloatFixed2 (roundToDouble (roundToDouble (of_int c / of_int a) * 100))
      else 0)"

definition meanAccuracy :: "entry list \<Rightarrow> rat" where
  "meanAccuracy g =
     sum_list (map (\<lambda>e. calculateAccuracy (asPartial e)) g) / of_nat (length g)"

text \<open>
  Three inputs: the two March records of the specification's end-to-end scenario,
  its two records of one day with 10 of 10 and 0 of 100 correct answers, and two
  records of one day with 20 of 80 and 3 of 80, whose 23 of 160 is 14.375 exactly
  and a little less as a double.
\<close>

definition scenarioEntries :: "entry list" where
  "scenarioEntries =
     [(initialFormState \<lparr>year = 2024, month = 3, day = 1\<rparr>)
        \<lparr>lrSets := 2, timeTaken := 20, questionsAttempted := 10, correctAnswers := 8\<rparr>,
      (initialFormState \<lparr>year = 2024, month = 3, day = 2\<rparr>)
        \<lparr>lrSets := 1, diSets := 1, timeTaken := 15, questionsAttempted := 8,
         correctAnswers := 4\<rparr>]"

definition skewedEntries :: "entry list" where
  "skewedEntries =
     [(initialFormState \<lparr>year = 2024, month = 3, day = 1\<rparr>)
        \<lparr>questionsAttempted := 10, correctAnswers := 10\<rparr>,
      (initialFormState \<lparr>year = 2024, month = 3, day = 1\<rparr>)
        \<lparr>questionsAttempted := 100, correctAnswers := 0\<rparr>]"

definition roundingEntries :: "entry list" where
  "roundingEntries =
     [(initialFormState \<lparr>year = 2024, month = 3, day = 1\<rparr>)
        \<lparr>questionsAttempted := 80, correctAnswers := 20\<rparr>,
      (initialFormState \<lparr>year = 2024, month = 3, day = 1\<rparr>)
        \<lparr>questionsAttempted := 80, correctAnswers := 3\<rparr>]"

section \<open>AIInsights.handleAnalyzeMistakes (lines 306-363)\<close>

text \<open>
  A text is a list of characters, taken to be ASCII: \<^verbatim>\<open>toLowerCase\<close> and
  \<^verbatim>\<open>toUpperCase\<close> change the 26 letters only, and the white space of \<^verbatim>\<open>\s\<close> and of
  \<^verbatim>\<open>trim\<close> is tab, line feed, vertical tab, form feed, carriage return and space.
\<close>

definition isSpace :: "char \<Rightarrow> bool" where
  "isSpace c \<longleftrightarrow> c \<in> set [CHR 0x09, CHR 0x0A, CHR 0x0B, CHR 0x0C, CHR 0x0D, CHR '' '']"

definition trim :: "string \<Rightarrow> string" where
  "trim s = rev (dropWhile isSpace (rev (dropWhile isSpace s)))"

definition toLowerChar :: "char \<Rightarrow> char" where
  "toLowerChar c =
     (let n = (of_char c :: int) in if 65 \<le> n \<and> n \<le> 90 then char_of (n + 32) else c)"

definition toUpperChar :: "char \<Rightarrow> char" where
  "toUpperChar c =
     (let n = (of_char c :: int) in if 97 \<le> n \<and> n \<le> 122 then char_of (n - 32) else c)"

definition toLowerCase :: "string \<Rightarrow> string" where
  "toLowerCase s = map toLowerChar s"

fun join :: "string \<Rightarrow> string list \<Rightarrow> string" where
  "join sep [] = []"
| "join sep [x] = x"
| "join sep (x # y # ys) = x @ sep @ join sep (y # ys)"

text \<open>
  \<^verbatim>\<open>split(/\s+/)\<close>: the pieces between the runs of white space. A text that starts
  or ends with white space has an empty first or last piece, and the empty text
  has the one piece that is empty.
\<close>

lemma splitWs_shorter:
  assumes "dropWhile (\<lambda>c. \<not> isSpace c) s \<noteq> []"
  shows "length (dropWhile isSpace (dropWhile (\<lambda>c. \<not> isSpace c) s)) < length s"
proof -
  let ?rest = "dropWhile (\<lambda>c. \<not> isSpace c) s"
  from assms obtain c r where r: "?rest = c # r" by (cases ?rest) auto
  then have "isSpace c" using hd_dropWhile [OF assms] by simp
  then have "dropWhile isSpace ?rest = dropWhile isSpace r" by (simp add: r)
  moreover have "length (dropWhile isSpace r) \<le> length r" by (rule length_dropWhile_le)
  moreover have "length ?rest \<le> length s" by (rule length_dropWhile_le)
  ultimately show ?thesis by (simp add: r)
qed

function splitWs :: "string \<Rightarrow> string list" where
  "splitWs s =
     (if dropWhile (\<lambda>c. \<not> isSpace c) s = [] then [takeWhile (\<lambda>c. \<not> isSpace c) s]
      else takeWhile (\<lambda>c. \<not> isSpace c) s
             # splitWs (dropWhile isSpace (dropWhile (\<lambda>c. \<not> isSpace c) s)))"
  by pat_completeness auto
termination
  by (relation "measure length") (simp_all add: splitWs_shorter)

declare splitWs.simps [simp del]

definition allLearnings :: "entry list \<Rightarrow> string" where
  "allLearnings entries = join '' '' (filter (\<lambda>l. trim l \<noteq> []) (map learnings entries))"

definition stopWords :: "string list" where
  "stopWords =
     [''a'', ''an'', ''the'', ''in'', ''on'', ''is'', ''was'', ''to'', ''for'', ''of'',
      ''and'', ''i'', ''my'', ''it'', ''with'', ''not'', ''did'', ''had'', ''but'']"

definition words :: "string \<Rightarrow> string list" where
  "words text =
     splitWs (filter (\<lambda>c. c \<noteq> CHR ''.'' \<and> c \<noteq> CHR '','') (toLowerCase text))"

text \<open>
  \<^verbatim>\<open>wordFrequencies\<close> is an object used as a dictionary, with \<^verbatim>\<open>Object.prototype\<close>
  behind it. It is an association list in the order in which the keys were
  created. Reading a word that is not yet a key finds what the prototype has under
  that name: for the two names that a lower-case word can be, \<^verbatim>\<open>constructor\<close> is a
  function, and the function plus 1 is a text, which is stored and is not a
  number; \<^verbatim>\<open>__proto__\<close> is an accessor whose setter ignores a text, so no key
  is created. Every other word starts at 1.
\<close>

datatype freq = Count nat | NotANumber

fun setKey :: "string \<Rightarrow> freq \<Rightarrow> (string \<times> freq) list \<Rightarrow> (string \<times> freq) list" where
  "setKey w v [] = [(w, v)]"
| "setKey w v ((k, u) # rest) = (if k = w then (k, v) # rest else (k, u) # setKey w v rest)"

definition countWord :: "string \<Rightarrow> (string \<times> freq) list \<Rightarrow> (string \<times> freq) list" where
  "countWord word tbl =
     (case map_of tbl word of
        Some (Count n) \<Rightarrow> setKey word (Count (n + 1)) tbl
      | Some NotANumber \<Rightarrow> tbl
      | None \<Rightarrow>
          if word = ''constructor'' then setKey word NotANumber tbl
          else if word = ''__proto__'' then tbl
          else setKey word (Count 1) tbl)"

definition wordFrequencies :: "string list \<Rightarrow> (string \<times> freq) list" where
  "wordFrequencies ws =
     fold (\<lambda>word tbl. if word \<notin> set stopWords \<and> length word > 3 then countWord word tbl
                       else tbl) ws []"

text \<open>
  \<^verbatim>\<open>Object.entries\<close> lists the keys that are array indices first, in ascending
  numeric order, and then the other keys in the order of their creation. An array
  index is the decimal numeral, without leading zeros, of a number below
  \<open>2\<^sup>3\<^sup>2 - 1\<close>.
\<close>

definition isDigit :: "char \<Rightarrow> bool" where
  "isDigit c \<longleftrightarrow> 48 \<le> (of_char c :: int) \<and> (of_char c :: int) \<le> 57"

definition indexValue :: "string \<Rightarrow> int" where
  "indexValue w = foldl (\<lambda>n c. 10 * n + (of_char c - 48)) 0 w"

definition isArrayIndex :: "string \<Rightarrow> bool" where
  "isArrayIndex w \<longleftrightarrow>
     w \<noteq> [] \<and> list_all isDigit w \<and> (w = ''0'' \<or> hd w \<noteq> CHR ''0'')
       \<and> indexValue w < 4294967295"

definition objectEntries :: "(string \<times> 'v) list \<Rightarrow> (string \<times> 'v) list" where
  "objectEntries tbl =
     sort_key (\<lambda>kv. indexValue (fst kv)) (filter (\<lambda>kv. isArrayIndex (fst kv)) tbl)
       @ filter (\<lambda>kv. \<not> isArrayIndex (fst kv)) tbl"

text \<open>
  \<^verbatim>\<open>sort(([, a], [, b]) => b - a)\<close>: stable, descending by count. A difference with
  a value that is not a number is NaN, which counts as 0. With such a value among
  counts that differ, the comparator is not consistent and ECMA-262 leaves the order
  to the implementation: the result is \<open>None\<close>. When all the counts are equal, every
  comparison is 0 and the stable sort leaves the list as it is.
\<close>

fun countOf :: "freq \<Rightarrow> nat option" where
  "countOf (Count n) = Some n"
| "countOf NotANumber = None"

definition sortByCount :: "(string \<times> freq) list \<Rightarrow> (string \<times> freq) list option" where
  "sortByCount kvs =
     (if list_all (\<lambda>kv. snd kv \<noteq> NotANumber) kvs
      then Some (sort_key (\<lambda>kv. - int (the (countOf (snd kv)))) kvs)
      else if length (remdups (filter (\<lambda>v. v \<noteq> NotANumber) (map snd kvs))) \<le> 1
      then Some kvs
      else None)"

definition sortedKeywords :: "string \<Rightarrow> string list option" where
  "sortedKeywords text =
     map_option (\<lambda>kvs. map fst (take 5 kvs))
       (sortByCount (objectEntries (wordFrequencies (words text))))"

definition noDataMessage :: string where
  "noDataMessage =
     ''No mistakes logged yet. Add learnings to your entries to analyze patterns.''"

definition notEnoughMessage :: string where
  "notEnoughMessage =
     ''Not enough data to identify key patterns. Keep logging your mistakes!''"

definition keywordLine :: "string \<Rightarrow> string" where
  "keywordLine k =
     ''- **'' @ map toUpperChar (take 1 k) @ drop 1 k
       @ ''**: This appears frequently in your notes.''"

text \<open>The value that the callback of the timer passes to \<^verbatim>\<open>setAnalysisResult\<close>.\<close>

definition analysisMessages :: "entry list \<Rightarrow> string list option" where
  "analysisMessages entries =
     (if trim (allLearnings entries) = [] then Some [noDataMessage]
      else case sortedKeywords (allLearnings entries) of
             None \<Rightarrow> None
           | Some ks \<Rightarrow>
               if length ks = 0 then Some [notEnoughMessage]
               else Some (''Based on your log, you should focus on:'' # map keywordLine ks))"

text \<open>
  The same on a given engine. Where the comparator is not consistent, the list is in
  the order that the engine \<^verbatim>\<open>sort\<close> gives it: the engine is a parameter, a function
  from the entries of the table to their order. Where the comparator is consistent,
  the engine has no say.
\<close>

type_synonym engine_sort = "(string \<times> freq) list \<Rightarrow> (string \<times> freq) list"

definition sortByCountOn :: "engine_sort \<Rightarrow> (string \<times> freq) list \<Rightarrow> (string \<times> freq) list" where
  "sortByCountOn engine kvs =
     (case sortByCount kvs of Some ordered \<Rightarrow> ordered | None \<Rightarrow> engine kvs)"

definition sortedKeywordsOn :: "engine_sort \<Rightarrow> string \<Rightarrow> string list" where
  "sortedKeywordsOn engine text =
     map fst (take 5 (sortByCountOn engine (objectEntries (wordFrequencies (words text)))))"

definition analysisMessagesOn :: "engine_sort \<Rightarrow> entry list \<Rightarrow> string list" where
  "analysisMessagesOn engine entries =
     (if trim (allLearnings entries) = [] then [noDataMessage]
      else let ks = sortedKeywordsOn engine (allLearnings entries)
           in if length ks = 0 then [notEnoughMessage]
              else ''Based on your log, you should focus on:'' # map keywordLine ks)"

text \<open>
  The component. Its state is the three values of \<^verbatim>\<open>useState\<close> and the timers that
  \<^verbatim>\<open>setTimeout\<close> has started and that have not fired: each holds the entries that the
  component had when the handler ran, and timers of one delay fire in the order in
  which they were started. \<^verbatim>\<open>handleAnalyzeMistakes\<close> sets the flag, clears the result
  and starts a timer; the callback of the timer stores the messages computed from
  its entries and clears the flag; the callback of the interval rotates the tip.
\<close>

record insights_state =
  isAnalyzing :: bool
  analysisResult :: "string list"
  currentTipIndex :: nat
  timers :: "entry list list"

definition tipInterval :: "insights_state \<Rightarrow> insights_state" where
  "tipInterval s = s\<lparr>currentTipIndex := (currentTipIndex s + 1) mod 5\<rparr>"

definition handleAnalyzeMistakes :: "entry list \<Rightarrow> insights_state \<Rightarrow> insights_state" where
  "handleAnalyzeMistakes entries s =
     s\<lparr>isAnalyzing := True, analysisResult := [], timers := timers s @ [entries]\<rparr>"

definition timeoutCallback :: "engine_sort \<Rightarrow> entry list \<Rightarrow> insights_state \<Rightarrow> insights_state" where
  "timeoutCallback engine entries s =
     s\<lparr>analysisResult := analysisMessagesOn engine entries, isAnalyzing := False\<rparr>"

text \<open>
  What happens to the component: a click on the button, which is disabled while the
  flag is set, with the entries that the component has at that moment; a tick of the
  interval; the oldest timer firing. A run is a sequence of these.
\<close>

datatype event = Click "entry list" | TipTick | TimerFires

fun dispatch :: "engine_sort \<Rightarrow> insights_state \<Rightarrow> event \<Rightarrow> insights_state" where
  "dispatch engine s (Click entries) =
     (if isAnalyzing s then s else handleAnalyzeMistakes entries s)"
| "dispatch engine s TipTick = tipInterval s"
| "dispatch engine s TimerFires =
     (case timers s of
        [] \<Rightarrow> s
      | entries # rest \<Rightarrow> timeoutCallback engine entries (s\<lparr>timers := rest\<rparr>))"

definition run :: "engine_sort \<Rightarrow> event list \<Rightarrow> insights_state \<Rightarrow> insights_state" where
  "run engine events s = foldl (dispatch engine) s events"

text \<open>
  For the examples: two records with notes, of which six words survive, one of them
  twice, so that the five of the result depend on which record comes first; a state
  of the component that shows an earlier result; and a run with three clicks, of
  which the second finds the button disabled.
\<close>

definition exampleNotes :: "entry list" where
  "exampleNotes =
     [(initialFormState \<lparr>year = 2024, month = 3, day = 1\<rparr>)
        \<lparr>learnings := ''Misread conditions in the question.''\<rparr>,
      (initialFormState \<lparr>year = 2024, month = 3, day = 2\<rparr>)
        \<lparr>learnings := ''Calculation error, misread table.''\<rparr>]"

definition shownState :: insights_state where
  "shownState =
     \<lparr>isAnalyzing = False, analysisResult = [''old''], currentTipIndex = 4, timers = []\<rparr>"

definition exampleEvents :: "event list" where
  "exampleEvents =
     [TipTick, Click exampleNotes, Click exampleNotes, TipTick, TimerFires, TimerFires,
      Click exampleNotes, TimerFires]"

section \<open>The ranking of the specification\<close>

text \<open>
  The ranking in the words of the specification: the tokens that survive the filter,
  each once, in the order of their first occurrence, sorted by descending count with
  a stable sort. \<open>rankedBefore\<close> says when one token is to come before another: its
  count is larger, or the counts are equal and it occurs first.
\<close>

definition survivingTokens :: "string \<Rightarrow> string list" where
  "survivingTokens text = filter (\<lambda>w. w \<notin> set stopWords \<and> length w > 3) (words text)"

definition firstIndex :: "'a list \<Rightarrow> 'a \<Rightarrow> nat" where
  "firstIndex ws w = length (takeWhile (\<lambda>x. x \<noteq> w) ws)"

definition rankedTokens :: "string list \<Rightarrow> string list" where
  "rankedTokens ws = sort_key (\<lambda>w. - int (count_list ws w)) (firstSeen ws)"

definition rankedBefore :: "string list \<Rightarrow> string \<Rightarrow> string \<Rightarrow> bool" where
  "rankedBefore ws a b \<longleftrightarrow>
     count_list ws b < count_list ws a
     \<or> (count_list ws a = count_list ws b \<and> firstIndex ws a < firstIndex ws b)"

text \<open>
  A word that is an ordinary key of the frequency table: not an array index, and not
  one of the two names that the prototype answers to.
\<close>

definition plainWord :: "string \<Rightarrow> bool" where
  "plainWord w \<longleftrightarrow> \<not> isArrayIndex w \<and> w \<noteq> ''constructor'' \<and> w \<noteq> ''__proto__''"

definition notesEntry :: "string \<Rightarrow> entry" where
  "notesEntry text =
     (initialFormState \<lparr>year = 2024, month = 3, day = 1\<rparr>)\<lparr>learnings := text\<rparr>"

section \<open>Rounding to a double\<close>

text \<open>
  Rounding to the nearest double changes a number by at most the \<open>2\<^sup>5\<^sup>3\<close>-th part
  of itself, keeps its sign and keeps 0 apart from every other number; the numeral
  of \<^verbatim>\<open>toFixed(2)\<close> is within half a hundredth of the number.
\<close>

lemma roundHalfEven_error: "\<bar>of_int (roundHalfEven y) - y\<bar> \<le> 1 / 2"
proof -
  have "of_int \<lfloor>y\<rfloor> \<le> y" "y < of_int \<lfloor>y\<rfloor> + 1" by linarith+
  then show ?thesis by (auto simp: roundHalfEven_def Let_def)
qed

lemma roundHalfEven_nonneg: "0 \<le> y \<Longrightarrow> 0 \<le> roundHalfEven y"
proof -
  assume "0 \<le> y"
  then have "0 \<le> \<lfloor>y\<rfloor>" by simp
  then show ?thesis by (auto simp: roundHalfEven_def Let_def)
qed

lemma two_powi_pos: "0 < (2::rat) powi k"
  by (simp add: power_int_def)

lemma two_powi_nat: "0 \<le> k \<Longrightarrow> (2::rat) powi k = 2 ^ nat k"
  by (simp add: power_int_def)

lemma bitlen_rat_bounds:
  assumes "0 < p"
  shows "(2::rat) powi (bitlen p - 1) \<le> of_int p" "of_int p < (2::rat) powi bitlen p"
proof -
  from bitlen_bounds [OF assms]
  have b: "2 ^ nat (bitlen p - 1) \<le> p" "p < 2 ^ nat (bitlen p)" by simp_all
  have ge: "1 \<le> bitlen p" using assms bitlen_eq_zero_iff [of p] bitlen_nonneg [of p] by linarith
  have "(2::rat) ^ nat (bitlen p - 1) = of_int (2 ^ nat (bitlen p - 1))" by simp
  also have "\<dots> \<le> of_int p" using b(1) by (simp only: of_int_le_iff)
  finally show "(2::rat) powi (bitlen p - 1) \<le> of_int p"
    using ge by (simp add: two_powi_nat)
  have "(of_int p :: rat) < of_int (2 ^ nat (bitlen p))" using b(2) by (simp only: of_int_less_iff)
  also have "\<dots> = 2 ^ nat (bitlen p)" by simp
  finally show "of_int p < (2::rat) powi bitlen p"
    using ge by (simp add: two_powi_nat)
qed

lemma binaryExponent_bounds:
  assumes "0 < x"
  shows "2 powi binaryExponent x \<le> x" "x < 2 powi (binaryExponent x + 1)"
proof -
  obtain p q where pq: "quotient_of x = (p, q)" by (cases "quotient_of x")
  then have q: "0 < q" by (rule quotient_of_denom_pos)
  from pq have x: "x = of_int p / of_int q" by (rule quotient_of_div)
  with assms q have p: "0 < p" by (simp add: zero_less_divide_iff)
  let ?k = "bitlen p - bitlen q"
  note bp = bitlen_rat_bounds [OF p] and bq = bitlen_rat_bounds [OF q]
  have qpos: "0 < (of_int q :: rat)" using q by simp
  have up: "x < 2 powi (?k + 1)"
  proof -
    have "x * of_int q = of_int p" using x qpos by simp
    also have "\<dots> < 2 powi bitlen p" by (rule bp(2))
    also have "\<dots> = (2::rat) powi (?k + 1) * 2 powi (bitlen q - 1)"
      by (simp add: power_int_add [symmetric])
    also have "\<dots> \<le> (2::rat) powi (?k + 1) * of_int q"
      using bq(1) two_powi_pos [of "?k + 1"] by (simp add: mult_left_mono)
    finally show ?thesis using qpos by simp
  qed
  have lo: "2 powi (?k - 1) \<le> x"
  proof -
    have "(2::rat) powi (?k - 1) * of_int q \<le> (2::rat) powi (?k - 1) * 2 powi bitlen q"
      using bq(2) two_powi_pos [of "?k - 1"] by (simp add: mult_left_mono)
    also have "\<dots> = (2::rat) powi (bitlen p - 1)"
      by (simp add: power_int_add [symmetric])
    also have "\<dots> \<le> of_int p" by (rule bp(1))
    also have "\<dots> = x * of_int q" using x qpos by simp
    finally show ?thesis using qpos by simp
  qed
  have e: "binaryExponent x = (if 2 powi ?k \<le> x then ?k else ?k - 1)"
    by (simp add: binaryExponent_def pq Let_def)
  show "2 powi binaryExponent x \<le> x" using lo by (simp add: e)
  show "x < 2 powi (binaryExponent x + 1)" using up by (auto simp: e)
qed

lemma roundToDouble_error: "\<bar>roundToDouble x - x\<bar> \<le> \<bar>x\<bar> / 2 ^ 53"
proof (cases "x = 0")
  case True
  then show ?thesis by (simp add: roundToDouble_def)
next
  case False
  let ?a = "\<bar>x\<bar>"
  let ?e = "binaryExponent ?a"
  let ?u = "(2::rat) powi (?e - 52)"
  let ?m = "of_int (roundHalfEven (?a / ?u)) :: rat"
  from False have a: "0 < ?a" by simp
  have u: "0 < ?u" by (rule two_powi_pos)
  have r: "roundToDouble x = sgn x * ?m * ?u"
    using False by (simp add: roundToDouble_def Let_def)
  have "\<bar>sgn x * ?m * ?u - x\<bar> = \<bar>sgn x * (?m * ?u - ?a)\<bar>"
    by (simp add: algebra_simps flip: abs_sgn mult_sgn_abs) (metis mult.commute mult_sgn_abs)
  also have "\<dots> = \<bar>?m * ?u - ?a\<bar>"
    using False by (simp add: abs_mult abs_sgn_eq)
  also have "\<dots> = \<bar>?m - ?a / ?u\<bar> * ?u"
  proof -
    have "?m * ?u - ?a = (?m - ?a / ?u) * ?u" using u by (simp add: field_simps)
    then show ?thesis using u by (simp add: abs_mult)
  qed
  also have "\<dots> \<le> 1 / 2 * ?u"
    using roundHalfEven_error [of "?a / ?u"] u by (intro mult_right_mono) simp_all
  also have "\<dots> = 2 powi ?e / 2 ^ 53"
  proof -
    have "(2::rat) powi (?e - 52) = 2 powi ?e / 2 powi 52" by (simp add: power_int_diff)
    then show ?thesis by simp
  qed
  also have "\<dots> \<le> ?a / 2 ^ 53"
    using binaryExponent_bounds(1) [OF a] by (simp add: divide_right_mono)
  finally show ?thesis by (simp only: r)
qed

lemma roundToDouble_eq_0_iff: "roundToDouble x = 0 \<longleftrightarrow> x = 0"
proof
  assume "roundToDouble x = 0"
  with roundToDouble_error [of x] have "\<bar>x\<bar> \<le> \<bar>x\<bar> / 2 ^ 53" by simp
  then show "x = 0" by simp
next
  assume "x = 0"
  then show "roundToDouble x = 0" by (simp add: roundToDouble_def)
qed

lemma roundToDouble_nonneg: "0 \<le> x \<Longrightarrow> 0 \<le> roundToDouble x"
proof (cases "x = 0")
  case True
  then show ?thesis by (simp add: roundToDouble_def)
next
  case False
  assume "0 \<le> x"
  with False have x: "0 < x" by simp
  have "0 \<le> \<bar>x\<bar> / 2 powi (binaryExponent \<bar>x\<bar> - 52)"
    using two_powi_pos [of "binaryExponent \<bar>x\<bar> - 52"] by simp
  then have "0 \<le> roundHalfEven (\<bar>x\<bar> / 2 powi (binaryExponent \<bar>x\<bar> - 52))"
    by (rule roundHalfEven_nonneg)
  then show ?thesis
    using x two_powi_pos [of "binaryExponent \<bar>x\<bar> - 52"]
    by (simp add: roundToDouble_def Let_def)
qed

lemma toFixed2_error: "\<bar>toFixed2 x - x\<bar> \<le> 1 / 200"
proof (cases "x < 0")
  case True
  define n where "n = \<lfloor>- x * 100 + 1 / 2\<rfloor>"
  have "of_int n \<le> - x * 100 + 1 / 2" "- x * 100 + 1 / 2 < of_int n + 1"
    unfolding n_def by linarith+
  then have "\<bar>- (of_int n / 100) - x\<bar> \<le> 1 / 200" by linarith
  then show ?thesis using True by (simp add: toFixed2_def n_def)
next
  case False
  define n where "n = \<lfloor>x * 100 + 1 / 2\<rfloor>"
  have "of_int n \<le> x * 100 + 1 / 2" "x * 100 + 1 / 2 < of_int n + 1"
    unfolding n_def by linarith+
  then have "\<bar>of_int n / 100 - x\<bar> \<le> 1 / 200" by linarith
  then show ?thesis using False by (simp add: toFixed2_def n_def)
qed

lemma percent_triangle: fixes r t p q q0 :: rat
  shows "\<bar>r - q0 * 100\<bar> \<le> \<bar>r - t\<bar> + \<bar>t - p\<bar> + \<bar>p - q * 100\<bar> + \<bar>q - q0\<bar> * 100"
proof -
  have e: "\<bar>q * 100 - q0 * 100\<bar> = \<bar>q - q0\<bar> * 100"
  proof -
    have "\<bar>(q - q0) * 100\<bar> = \<bar>q - q0\<bar> * \<bar>100\<bar>" by (rule abs_mult)
    also have "\<dots> = \<bar>q - q0\<bar> * 100" by simp
    finally show ?thesis by (simp only: left_diff_distrib)
  qed
  have "r - q0 * 100 = (r - t) + (t - p) + (p - q * 100) + (q * 100 - q0 * 100)" by simp
  also have "\<bar>\<dots>\<bar> \<le> \<bar>r - t\<bar> + \<bar>t - p\<bar> + \<bar>p - q * 100\<bar> + \<bar>q * 100 - q0 * 100\<bar>"
    by (intro order_trans [OF abs_triangle_ineq] add_mono order_refl)
  finally show ?thesis by (simp only: e)
qed

lemma percent_sum_bound: fixes q q0 p t r :: rat
  assumes 1: "\<bar>q - q0\<bar> \<le> \<bar>q0\<bar> / 2 ^ 53"
   and 2: "\<bar>p - q * 100\<bar> \<le> \<bar>q\<bar> * 100 / 2 ^ 53"
   and 3: "\<bar>t - p\<bar> \<le> 1 / 200"
   and 4: "\<bar>r - t\<bar> \<le> \<bar>t\<bar> / 2 ^ 53"
  shows "\<bar>r - t\<bar> + \<bar>t - p\<bar> + \<bar>p - q * 100\<bar> + \<bar>q - q0\<bar> * 100 \<le> 1 / 200 + (\<bar>q0\<bar> * 100 + 1) / 2 ^ 50"
proof -
  define a where "a = \<bar>q0\<bar>"
  define b where "b = \<bar>q\<bar>"
  define c where "c = \<bar>p\<bar>"
  define d where "d = \<bar>t\<bar>"
  have a0: "0 \<le> a" by (simp add: a_def)
  have "\<bar>q\<bar> \<le> \<bar>q0\<bar> + \<bar>q - q0\<bar>" by simp
  with 1 have b: "b \<le> a + a / 2 ^ 53" by (simp add: a_def b_def)
  have "\<bar>p\<bar> \<le> \<bar>q * 100\<bar> + \<bar>p - q * 100\<bar>" by simp
  with 2 have c: "c \<le> b * 100 + b * 100 / 2 ^ 53" by (simp add: b_def c_def abs_mult)
  have "\<bar>t\<bar> \<le> \<bar>p\<bar> + \<bar>t - p\<bar>" by simp
  with 3 have d: "d \<le> c + 1 / 200" by (simp add: c_def d_def)
  have s: "\<bar>r - t\<bar> + \<bar>t - p\<bar> + \<bar>p - q * 100\<bar> + \<bar>q - q0\<bar> * 100
      \<le> d / 2 ^ 53 + 1 / 200 + b * 100 / 2 ^ 53 + a / 2 ^ 53 * 100"
    using 1 2 3 4 by (simp add: a_def b_def d_def add_mono)
  have "d / 2 ^ 53 + 1 / 200 + b * 100 / 2 ^ 53 + a / 2 ^ 53 * 100
      \<le> 1 / 200 + (a * 100 + 1) / 2 ^ 50"
    using a0 b c d by simp
  with s show ?thesis unfolding a_def by linarith
qed

lemma percent_error:
  "\<bar>parseFloatFixed2 (roundToDouble (roundToDouble q0 * 100)) - q0 * 100\<bar>
     \<le> 1 / 200 + (\<bar>q0 * 100\<bar> + 1) / 2 ^ 50"
proof -
  define q where "q = roundToDouble q0"
  define p where "p = roundToDouble (q * 100)"
  define t where "t = toFixed2 p"
  define r where "r = roundToDouble t"
  have 1: "\<bar>q - q0\<bar> \<le> \<bar>q0\<bar> / 2 ^ 53"
    unfolding q_def by (rule roundToDouble_error)
  have "\<bar>p - q * 100\<bar> \<le> \<bar>q * 100\<bar> / 2 ^ 53"
    unfolding p_def by (rule roundToDouble_error)
  then have 2: "\<bar>p - q * 100\<bar> \<le> \<bar>q\<bar> * 100 / 2 ^ 53" by (simp add: abs_mult)
  have 3: "\<bar>t - p\<bar> \<le> 1 / 200"
    unfolding t_def by (rule toFixed2_error)
  have 4: "\<bar>r - t\<bar> \<le> \<bar>t\<bar> / 2 ^ 53"
    unfolding r_def by (rule roundToDouble_error)
  have "\<bar>r - q0 * 100\<bar> \<le> \<bar>r - t\<bar> + \<bar>t - p\<bar> + \<bar>p - q * 100\<bar> + \<bar>q - q0\<bar> * 100"
    by (rule percent_triangle)
  also have "\<dots> \<le> 1 / 200 + (\<bar>q0\<bar> * 100 + 1) / 2 ^ 50"
    using 1 2 3 4 by (rule percent_sum_bound)
  finally have "\<bar>r - q0 * 100\<bar> \<le> 1 / 200 + (\<bar>q0\<bar> * 100 + 1) / 2 ^ 50" .
  moreover have "\<bar>q0 * 100\<bar> = \<bar>q0\<bar> * 100" by (simp add: abs_mult)
  ultimately show ?thesis
    by (simp only: r_def t_def p_def q_def parseFloatFixed2_def)
qed

lemma parseFloatFixed2_0: "parseFloatFixed2 0 = 0"
  by code_simp

section \<open>Properties of the helper functions\<close>

lemma foldl_add_sum_list:
  "foldl (\<lambda>s x. s + f x) a xs = (a::int) + sum_list (map f xs)"
  by (induction xs arbitrary: a) simp_all

text \<open>
  C8. A draft target that is not positive leaves the whole state as it was: the
  stored target keeps its previous value (and the editor stays open).
\<close>

theorem handleSave_rejects_nonpositive:
  "\<not> target s > 0 \<Longrightarrow> handleSave s = s \<and> dailyTarget (handleSave s) = dailyTarget s"
  by (simp add: handleSave_def)

theorem handleSave_rejects_nonpositive_witness:
  "\<not> target \<lparr>dailyTarget = 6, isEditing = True, target = -2\<rparr> > 0
   \<and> handleSave \<lparr>dailyTarget = 6, isEditing = True, target = -2\<rparr>
       = \<lparr>dailyTarget = 6, isEditing = True, target = -2\<rparr>
   \<and> dailyTarget (handleSave \<lparr>dailyTarget = 6, isEditing = True, target = -2\<rparr>) = 6"
  using handleSave_rejects_nonpositive
    [of "\<lparr>dailyTarget = 6, isEditing = True, target = -2\<rparr>"]
  by simp

text \<open>
  C2 as stated fails: a record with attempts but no correct answer has accuracy 0.
\<close>

theorem calculateAccuracy_zero_counterexample:
  "\<not> (calculateAccuracy
          \<lparr>p_lrSets = None, p_diSets = None, p_vaultSets = None, p_sectionalSets = None,
           p_timeTaken = None, p_questionsAttempted = Some 10, p_correctAnswers = Some 0\<rparr> = 0
        \<longleftrightarrow>
        orZero (p_questionsAttempted
          \<lparr>p_lrSets = None, p_diSets = None, p_vaultSets = None, p_sectionalSets = None,
           p_timeTaken = None, p_questionsAttempted = Some 10, p_correctAnswers = Some 0\<rparr>) = 0)"
  by (simp add: calculateAccuracy_def roundToDouble_eq_0_iff)

text \<open>
  C2 (amended). For every record, also a partial one, the accuracy is 0 exactly when
  the attempts are 0 or absent or the correct answers are 0 or absent; and it is
  not negative when both counts are non-negative, as the data model says they are.
\<close>

theorem calculateAccuracy_nonneg_zero_iff:
  "(calculateAccuracy p = 0 \<longleftrightarrow>
      orZero (p_questionsAttempted p) = 0 \<or> orZero (p_correctAnswers p) = 0)
   \<and> (0 \<le> orZero (p_correctAnswers p) \<and> 0 \<le> orZero (p_questionsAttempted p)
        \<longrightarrow> 0 \<le> calculateAccuracy p)"
proof (intro conjI impI)
  show "calculateAccuracy p = 0 \<longleftrightarrow>
      orZero (p_questionsAttempted p) = 0 \<or> orZero (p_correctAnswers p) = 0"
    by (cases "p_questionsAttempted p")
       (auto simp: calculateAccuracy_def roundToDouble_eq_0_iff)
next
  assume a: "0 \<le> orZero (p_correctAnswers p) \<and> 0 \<le> orZero (p_questionsAttempted p)"
  show "0 \<le> calculateAccuracy p"
  proof (cases "p_questionsAttempted p")
    case None
    then show ?thesis by (simp add: calculateAccuracy_def)
  next
    case (Some q)
    with a have "0 \<le> (of_int (orZero (p_correctAnswers p)) :: rat) / of_int q" by simp
    then have "0 \<le> roundToDouble (of_int (orZero (p_correctAnswers p)) / of_int q) * 100"
      by (simp add: roundToDouble_nonneg)
    then have "0 \<le> roundToDouble
        (roundToDouble (of_int (orZero (p_correctAnswers p)) / of_int q) * 100)"
      by (rule roundToDouble_nonneg)
    then show ?thesis using Some by (simp add: calculateAccuracy_def)
  qed
qed

theorem calculateAccuracy_nonneg_zero_iff_witness:
  "calculateAccuracy
      \<lparr>p_lrSets = None, p_diSets = None, p_vaultSets = None, p_sectionalSets = None,
       p_timeTaken = None, p_questionsAttempted = Some 10, p_correctAnswers = Some 8\<rparr> = 80
   \<and> calculateAccuracy
      \<lparr>p_lrSets = None, p_diSets = None, p_vaultSets = None, p_sectionalSets = None,
       p_timeTaken = None, p_questionsAttempted = None, p_correctAnswers = Some 8\<rparr> = 0
   \<and> (0::int) \<le> orZero (Some 8) \<and> (0::int) \<le> orZero (Some 10)
   \<and> 0 \<le> calculateAccuracy
      \<lparr>p_lrSets = None, p_diSets = None, p_vaultSets = None, p_sectionalSets = None,
       p_timeTaken = None, p_questionsAttempted = Some 10, p_correctAnswers = Some 8\<rparr>"
proof -
  have e: "calculateAccuracy
      \<lparr>p_lrSets = None, p_diSets = None, p_vaultSets = None, p_sectionalSets = None,
       p_timeTaken = None, p_questionsAttempted = Some 10, p_correctAnswers = Some 8\<rparr> = 80"
    by code_simp
  have z: "calculateAccuracy
      \<lparr>p_lrSets = None, p_diSets = None, p_vaultSets = None, p_sectionalSets = None,
       p_timeTaken = None, p_questionsAttempted = None, p_correctAnswers = Some 8\<rparr> = 0"
    by (simp add: calculateAccuracy_def)
  from calculateAccuracy_nonneg_zero_iff
    [of "\<lparr>p_lrSets = None, p_diSets = None, p_vaultSets = None, p_sectionalSets = None,
       p_timeTaken = None, p_questionsAttempted = Some 10, p_correctAnswers = Some 8\<rparr>"]
  show ?thesis unfolding e z by simp
qed

text \<open>
  C5. The sets of today are the sum of the total sets of the entries dated today;
  the progress is \<open>min (setsToday / target * 100) 100\<close> for a positive target and 0
  otherwise; the bar is \<open>BgSuccess\<close> (met or exceeded) exactly when
  \<open>setsToday \<ge> target\<close>, \<open>BgYellow400\<close> (on track) exactly when the progress is above
  50 and the target is not met, and \<open>BgPrimary\<close> (below half) otherwise. Six sets
  against a target of six give 100 and met; no set against six gives 0 and below
  half; a target that is not positive gives progress 0.
\<close>

theorem goal_progress:
  "setsToday es today =
     sum_list (map (\<lambda>e. calculateTotalSets (asPartial e)) (filter (\<lambda>e. date e = today) es))
   \<and> progress es today tgt =
       (if tgt > 0 then min (of_int (setsToday es today) / tgt * 100) 100 else 0)
   \<and> (barColor es today tgt = BgSuccess \<longleftrightarrow> of_int (setsToday es today) \<ge> tgt)
   \<and> (barColor es today tgt = BgYellow400 \<longleftrightarrow>
        progress es today tgt > 50 \<and> \<not> of_int (setsToday es today) \<ge> tgt)
   \<and> (barColor es today tgt = BgPrimary \<longleftrightarrow>
        \<not> progress es today tgt > 50 \<and> \<not> of_int (setsToday es today) \<ge> tgt)
   \<and> (setsToday es today = 6 \<and> tgt = 6 \<longrightarrow>
        progress es today tgt = 100 \<and> barColor es today tgt = BgSuccess)
   \<and> (setsToday es today = 0 \<and> tgt = 6 \<longrightarrow>
        progress es today tgt = 0 \<and> barColor es today tgt = BgPrimary)
   \<and> (tgt \<le> 0 \<longrightarrow> progress es today tgt = 0)"
  by (auto simp: setsToday_def progress_def barColor_def foldl_add_sum_list)

theorem goal_progress_witness:
  "setsToday
     [(initialFormState \<lparr>year = 2024, month = 3, day = 1\<rparr>)\<lparr>lrSets := 2, diSets := 4\<rparr>,
      (initialFormState \<lparr>year = 2024, month = 3, day = 2\<rparr>)\<lparr>lrSets := 5\<rparr>]
     \<lparr>year = 2024, month = 3, day = 1\<rparr> = 6
   \<and> progress
     [(initialFormState \<lparr>year = 2024, month = 3, day = 1\<rparr>)\<lparr>lrSets := 2, diSets := 4\<rparr>,
      (initialFormState \<lparr>year = 2024, month = 3, day = 2\<rparr>)\<lparr>lrSets := 5\<rparr>]
     \<lparr>year = 2024, month = 3, day = 1\<rparr> 6 = 100
   \<and> barColor
     [(initialFormState \<lparr>year = 2024, month = 3, day = 1\<rparr>)\<lparr>lrSets := 2, diSets := 4\<rparr>,
      (initialFormState \<lparr>year = 2024, month = 3, day = 2\<rparr>)\<lparr>lrSets := 5\<rparr>]
     \<lparr>year = 2024, month = 3, day = 1\<rparr> 6 = BgSuccess
   \<and> setsToday
     [(initialFormState \<lparr>year = 2024, month = 3, day = 1\<rparr>)\<lparr>lrSets := 2, diSets := 4\<rparr>,
      (initialFormState \<lparr>year = 2024, month = 3, day = 2\<rparr>)\<lparr>lrSets := 5\<rparr>]
     \<lparr>year = 2024, month = 3, day = 3\<rparr> = 0
   \<and> progress
     [(initialFormState \<lparr>year = 2024, month = 3, day = 1\<rparr>)\<lparr>lrSets := 2, diSets := 4\<rparr>,
      (initialFormState \<lparr>year = 2024, month = 3, day = 2\<rparr>)\<lparr>lrSets := 5\<rparr>]
     \<lparr>year = 2024, month = 3, day = 3\<rparr> 6 = 0
   \<and> barColor
     [(initialFormState \<lparr>year = 2024, month = 3, day = 1\<rparr>)\<lparr>lrSets := 2, diSets := 4\<rparr>,
      (initialFormState \<lparr>year = 2024, month = 3, day = 2\<rparr>)\<lparr>lrSets := 5\<rparr>]
     \<lparr>year = 2024, month = 3, day = 3\<rparr> 6 = BgPrimary
   \<and> progress
     [(initialFormState \<lparr>year = 2024, month = 3, day = 1\<rparr>)\<lparr>lrSets := 2, diSets := 4\<rparr>,
      (initialFormState \<lparr>year = 2024, month = 3, day = 2\<rparr>)\<lparr>lrSets := 5\<rparr>]
     \<lparr>year = 2024, month = 3, day = 1\<rparr> 0 = 0"
proof -
  let ?es = "[(initialFormState \<lparr>year = 2024, month = 3, day = 1\<rparr>)\<lparr>lrSets := 2, diSets := 4\<rparr>,
      (initialFormState \<lparr>year = 2024, month = 3, day = 2\<rparr>)\<lparr>lrSets := 5\<rparr>]"
  let ?d = "\<lparr>year = 2024, month = 3, day = 1\<rparr>"
  let ?d' = "\<lparr>year = 2024, month = 3, day = 3\<rparr>"
  have s: "setsToday ?es ?d = 6" by code_simp
  have s': "setsToday ?es ?d' = 0" by code_simp
  from goal_progress [of ?es ?d 6] goal_progress [of ?es ?d' 6] goal_progress [of ?es ?d 0] s s'
  show ?thesis by simp
qed

section \<open>The year of a time value\<close>

lemma DayFromYear_1970: "DayFromYear 1970 = 0"
  by (simp add: DayFromYear_def)

lemma DayFromYear_upper: "0 \<le> k \<Longrightarrow> DayFromYear (1970 + k) \<le> 366 * k"
proof (induction k rule: int_ge_induct)
  case base
  show ?case by (simp add: DayFromYear_1970)
next
  case (step i)
  have "DayFromYear (1970 + (i + 1)) = DayFromYear (1970 + i) + DaysInYear (1970 + i)"
    using DayFromYear_Suc [of "1970 + i"] by (simp add: add.assoc)
  with step DaysInYear_bounds [of "1970 + i"] show ?case by simp
qed

lemma DayFromYear_lower: "k \<le> 0 \<Longrightarrow> DayFromYear (1970 + k) \<le> 365 * k"
proof (induction k rule: int_le_induct)
  case base
  show ?case by (simp add: DayFromYear_1970)
next
  case (step i)
  have "DayFromYear (1970 + i) = DayFromYear (1970 + (i - 1)) + DaysInYear (1970 + (i - 1))"
    using DayFromYear_Suc [of "1970 + (i - 1)"] by simp
  with step DaysInYear_bounds [of "1970 + (i - 1)"] show ?case by simp
qed

lemma yearUp_start: "DayFromYear (1970 + (if 0 \<le> d then d div 366 else d div 365)) \<le> d"
proof (cases "0 \<le> d")
  case True
  then have "0 \<le> d div 366" by simp
  from DayFromYear_upper [OF this] have "DayFromYear (1970 + d div 366) \<le> 366 * (d div 366)" .
  also have "\<dots> \<le> d" by simp
  finally show ?thesis using True by simp
next
  case False
  then have "d div 365 \<le> 0" by simp
  from DayFromYear_lower [OF this] have "DayFromYear (1970 + d div 365) \<le> 365 * (d div 365)" .
  also have "\<dots> \<le> d" by simp
  finally show ?thesis using False by simp
qed

lemma yearUp_spec:
  "DayFromYear y \<le> d \<Longrightarrow> DayFromYear (yearUp y d) \<le> d \<and> d < DayFromYear (yearUp y d + 1)"
proof (induction y d rule: yearUp.induct)
  case (1 y d)
  show ?case
  proof (cases "DayFromYear (y + 1) \<le> d")
    case True
    with 1 show ?thesis by (subst (1 2) yearUp.simps) simp
  next
    case False
    with 1 show ?thesis by (subst (1 2) yearUp.simps) simp
  qed
qed

lemma DayFromYear_mono: "y \<le> y' \<Longrightarrow> DayFromYear y \<le> DayFromYear y'"
proof (induction y' rule: int_ge_induct)
  case base show ?case by simp
next
  case (step i)
  then show ?case using DayFromYear_step [of i] by simp
qed

lemma year_unique:
  assumes "DayFromYear y \<le> d" "d < DayFromYear (y + 1)"
      and "DayFromYear y' \<le> d" "d < DayFromYear (y' + 1)"
  shows "y = y'"
proof (rule ccontr)
  assume "y \<noteq> y'"
  then consider "y + 1 \<le> y'" | "y' + 1 \<le> y" by linarith
  then show False
  proof cases
    case 1
    from DayFromYear_mono [OF 1] assms show False by simp
  next
    case 2
    from DayFromYear_mono [OF 2] assms show False by simp
  qed
qed

text \<open>YearFromTime is the year in whose days the day of \<open>t\<close> lies.\<close>

lemma YearFromTime_eq:
  assumes "DayFromYear y \<le> Day t" "Day t < DayFromYear (y + 1)"
  shows "YearFromTime t = y"
proof -
  let ?y0 = "1970 + (if 0 \<le> Day t then Day t div 366 else Day t div 365)"
  have "DayFromYear (yearUp ?y0 (Day t)) \<le> Day t \<and> Day t < DayFromYear (yearUp ?y0 (Day t) + 1)"
    by (rule yearUp_spec) (rule yearUp_start)
  then have "yearUp ?y0 (Day t) = y"
    using assms year_unique by blast
  then show ?thesis by (simp add: YearFromTime_def Let_def)
qed

lemma Day_offset:
  assumes "0 \<le> tz" "tz < msPerDay"
  shows "Day (msPerDay * k + tz) = k"
proof -
  have "(msPerDay * k + tz) div msPerDay = k + tz div msPerDay"
    by (simp add: msPerDay_def)
  moreover have "tz div msPerDay = 0" using assms by (simp add: div_pos_pos_trivial)
  ultimately show ?thesis by (simp add: Day_def)
qed

lemma monthStart_range:
  assumes "valid_date d"
  shows "0 \<le> monthStart (year d) (month d - 1) + day d - 1
         \<and> monthStart (year d) (month d - 1) + day d - 1 < DaysInYear (year d)"
proof -
  from assms have m: "1 \<le> month d" "month d \<le> 12"
    and dd: "1 \<le> day d" "day d \<le> daysInMonth (year d) (month d)"
    by (simp_all add: valid_date_def)
  from m have "month d = 1 \<or> month d = 2 \<or> month d = 3 \<or> month d = 4
      \<or> month d = 5 \<or> month d = 6 \<or> month d = 7 \<or> month d = 8 \<or> month d = 9
      \<or> month d = 10 \<or> month d = 11 \<or> month d = 12" by presburger
  then show ?thesis
    using dd DaysInYear_bounds [of "year d"]
    by (elim disjE) (auto simp: monthStart_def daysInMonth_def split: if_splits)
qed

lemma MakeDay_valid:
  assumes "1 \<le> m" "m \<le> 12"
  shows "MakeDay y (m - 1) dd = DayFromYear y + (monthStart y (m - 1) + dd - 1)"
proof -
  have "(m - 1) div 12 = 0" "(m - 1) mod 12 = m - 1"
    using assms by (simp_all add: div_pos_pos_trivial mod_pos_pos_trivial)
  then show ?thesis by (simp add: MakeDay_def Let_def)
qed

lemma parseDate_jan1: "parseDate \<lparr>year = y, month = 1, day = 1\<rparr> = msPerDay * DayFromYear y"
  by (simp add: parseDate_def MakeDay_def monthStart_def)

lemma parseDate_valid:
  assumes "valid_date d"
  shows "parseDate d = msPerDay * (DayFromYear (year d) + dayOfYear d)"
    and "0 \<le> dayOfYear d" and "dayOfYear d < DaysInYear (year d)"
proof -
  from assms have m: "1 \<le> month d" "month d \<le> 12" by (simp_all add: valid_date_def)
  have p: "parseDate d = msPerDay * (DayFromYear (year d) + (monthStart (year d) (month d - 1) + day d - 1))"
    by (simp add: parseDate_def MakeDay_valid [OF m])
  have "parseDate d - parseDate \<lparr>year = year d, month = 1, day = 1\<rparr>
        = msPerDay * (monthStart (year d) (month d - 1) + day d - 1)"
    by (simp add: p parseDate_jan1 algebra_simps)
  then have k: "dayOfYear d = monthStart (year d) (month d - 1) + day d - 1"
    by (simp add: dayOfYear_def msPerDay_def)
  show "parseDate d = msPerDay * (DayFromYear (year d) + dayOfYear d)" by (simp add: p k)
  show "0 \<le> dayOfYear d" "dayOfYear d < DaysInYear (year d)"
    using monthStart_range [OF assms] by (simp_all add: k)
qed

lemma getFullYear_valid:
  assumes "valid_date d" "0 \<le> tz" "tz < msPerDay"
  shows "getFullYear tz (parseDate d) = year d"
proof -
  have "Day (parseDate d + tz) = DayFromYear (year d) + dayOfYear d"
    by (simp add: parseDate_valid(1) [OF assms(1)] Day_offset [OF assms(2,3)])
  moreover have "DayFromYear (year d) \<le> DayFromYear (year d) + dayOfYear d"
    using parseDate_valid(2) [OF assms(1)] by simp
  moreover have "DayFromYear (year d) + dayOfYear d < DayFromYear (year d + 1)"
    using parseDate_valid(3) [OF assms(1)] by (simp add: DayFromYear_Suc)
  ultimately show ?thesis
    unfolding getFullYear_def by (intro YearFromTime_eq) simp_all
qed

lemma getWeekLabel_valid:
  assumes "valid_date d" "0 \<le> tz" "tz < msPerDay" "\<not> (0 \<le> year d \<and> year d \<le> 99)"
  shows "getWeekLabel tz (parseDate d) =
     \<lceil>(of_int (dayOfYear d) + of_int tz / 86400000
         + of_int (firstWeekdayOfYear (year d)) + 1) / (7::rat)\<rceil>"
proof -
  have fy: "getFullYear tz (parseDate d) = year d" by (rule getFullYear_valid [OF assms(1-3)])
  have fd: "newDate tz (year d) 0 1 = msPerDay * DayFromYear (year d) - tz"
    using assms(4) by (auto simp add: newDate_def MakeDay_def monthStart_def Let_def)
  have gd: "getDay tz (msPerDay * DayFromYear (year d) - tz) = firstWeekdayOfYear (year d)"
    by (simp add: getDay_def firstWeekdayOfYear_def parseDate_jan1)
  have "parseDate d - (msPerDay * DayFromYear (year d) - tz) = msPerDay * dayOfYear d + tz"
    by (simp add: parseDate_valid(1) [OF assms(1)] algebra_simps)
  then have pd: "(of_int (parseDate d - (msPerDay * DayFromYear (year d) - tz)) :: rat) / 86400000
      = of_int (dayOfYear d) + of_int tz / 86400000"
    by (simp add: msPerDay_def add_divide_distrib)
  show ?thesis
    unfolding getWeekLabel_def Let_def fy fd gd pd ..
qed

section \<open>The weekly key\<close>

text \<open>
  C1 as stated fails. Sunday 2024-01-07 is day 6 of a year that starts on a Monday
  (weekday 1): the formula of the claim gives week \<open>\<lceil>7 / 7\<rceil> = 1\<close>, the code gives
  week 2, since it adds 1 before dividing.
\<close>

theorem weekly_key_counterexample:
  "groupKey 0 Weekly (initialFormState \<lparr>year = 2024, month = 1, day = 7\<rparr>)
   \<noteq> WeekKey (year (date (initialFormState \<lparr>year = 2024, month = 1, day = 7\<rparr>)))
       \<lceil>(of_int (dayOfYear (date (initialFormState \<lparr>year = 2024, month = 1, day = 7\<rparr>)))
          + of_int (firstWeekdayOfYear
              (year (date (initialFormState \<lparr>year = 2024, month = 1, day = 7\<rparr>)))))
         / (7::rat)\<rceil>"
  by code_simp

lemma sunday_week_values:
  "groupKey 0 Weekly (initialFormState \<lparr>year = 2024, month = 1, day = 7\<rparr>) = WeekKey 2024 2
   \<and> dayOfYear \<lparr>year = 2024, month = 1, day = 7\<rparr> = 6 \<and> firstWeekdayOfYear 2024 = 1"
  by code_simp

text \<open>
  C1 (amended). Where local time is UTC, for every record whose date is a date of
  the calendar in a year outside 0 to 99, the weekly key is the pair of the year and
  \<open>\<lceil>(dayOfYear + firstWeekdayOfYear + 1) / 7\<rceil>\<close>.
\<close>

theorem weekly_key_formula:
  assumes "valid_date (date e)" "\<not> (0 \<le> year (date e) \<and> year (date e) \<le> 99)"
  shows "groupKey 0 Weekly e =
     WeekKey (year (date e))
       \<lceil>(of_int (dayOfYear (date e)) + of_int (firstWeekdayOfYear (year (date e))) + 1)
         / (7::rat)\<rceil>"
  using getWeekLabel_valid [OF assms(1), of 0] getFullYear_valid [OF assms(1), of 0] assms(2)
  by (simp add: groupKey_def Let_def msPerDay_def)

theorem weekly_key_formula_witness:
  "valid_date (date (initialFormState \<lparr>year = 2024, month = 3, day = 1\<rparr>))
   \<and> \<not> (0 \<le> year (date (initialFormState \<lparr>year = 2024, month = 3, day = 1\<rparr>))
        \<and> year (date (initialFormState \<lparr>year = 2024, month = 3, day = 1\<rparr>)) \<le> 99)
   \<and> groupKey 0 Weekly (initialFormState \<lparr>year = 2024, month = 3, day = 1\<rparr>) = WeekKey 2024 9"
proof -
  let ?e = "initialFormState \<lparr>year = 2024, month = 3, day = 1\<rparr>"
  have v: "valid_date (date ?e)" by code_simp
  have ny: "\<not> (0 \<le> year (date ?e) \<and> year (date ?e) \<le> 99)" by code_simp
  have "WeekKey (year (date ?e))
       \<lceil>(of_int (dayOfYear (date ?e)) + of_int (firstWeekdayOfYear (year (date ?e))) + 1)
         / (7::rat)\<rceil>
       = WeekKey 2024 9" by code_simp
  with weekly_key_formula [OF v ny] v ny show ?thesis by simp
qed

text \<open>
  The week depends on the offset of local time: east of Greenwich \<^verbatim>\<open>pastDays\<close> is
  not whole, and a Saturday falls into the week after. At five and a half hours
  east, Saturday 2024-01-06 is in week 2; at UTC it is in week 1.
\<close>

lemma weekly_key_offset_example:
  "groupKey 19800000 Weekly (initialFormState \<lparr>year = 2024, month = 1, day = 6\<rparr>)
     = WeekKey 2024 2
   \<and> groupKey 0 Weekly (initialFormState \<lparr>year = 2024, month = 1, day = 6\<rparr>)
     = WeekKey 2024 1"
  by code_simp

text \<open>
  Across a year boundary the numbering starts again: the last day of 2023 is in week
  53 of 2023 and the first day of 2024 in week 1 of 2024, though both lie in one
  week of the calendar.
\<close>

lemma year_boundary_weeks:
  "groupKey 0 Weekly (initialFormState \<lparr>year = 2023, month = 12, day = 31\<rparr>)
     = WeekKey 2023 53
   \<and> groupKey 0 Weekly (initialFormState \<lparr>year = 2024, month = 1, day = 1\<rparr>)
     = WeekKey 2024 1"
  by code_simp

section \<open>The chart data\<close>

lemma sum_insort_key:
  "sum_list (map g (insort_key f x xs)) = (g x :: int) + sum_list (map g xs)"
  by (induction xs) simp_all

lemma sum_sort_key: "sum_list (map g (sort_key f xs)) = (sum_list (map g xs) :: int)"
  by (induction xs) (simp_all add: sum_insort_key)

lemma sum_pushGrouped:
  "(\<Sum>kv\<leftarrow>pushGrouped k x G. sum_list (map f (snd kv)))
     = (f x :: int) + (\<Sum>kv\<leftarrow>G. sum_list (map f (snd kv)))"
  by (induction G) auto

lemma sum_fold_pushGrouped:
  "(\<Sum>kv\<leftarrow>fold (\<lambda>e g. pushGrouped (keyOf e) e g) xs G. sum_list (map f (snd kv)))
     = (sum_list (map f xs) :: int) + (\<Sum>kv\<leftarrow>G. sum_list (map f (snd kv)))"
  by (induction xs arbitrary: G) (simp_all add: sum_pushGrouped)

lemma sum_groupedData:
  "(\<Sum>kv\<leftarrow>groupedData keyOf xs. sum_list (map f (snd kv))) = (sum_list (map f xs) :: int)"
  by (simp add: groupedData_def sum_fold_pushGrouped)

lemma TotalSets_bucketPoint:
  "TotalSets (bucketPoint kv) = sum_list (map (\<lambda>e. calculateTotalSets (asPartial e)) (snd kv))"
  by (cases kv) (simp add: bucketPoint_def Let_def foldl_add_sum_list)

lemma TotalSets_dailyPoint: "TotalSets (dailyPoint e) = calculateTotalSets (asPartial e)"
  by (simp add: dailyPoint_def)

lemma sliceLast_map: "sliceLast n (map f xs) = map f (sliceLast n xs)"
  by (simp add: sliceLast_def drop_map)

lemma sliceLast_all: "length xs \<le> n \<Longrightarrow> sliceLast n xs = xs"
  by (simp add: sliceLast_def)

text \<open>
  C3 as stated fails in daily mode, where the output is cut to its last 30 points:
  31 records of one set each give points that sum to 30.
\<close>

theorem totalSets_daily_counterexample:
  "sum_list (map TotalSets
     (chartData 0
        (replicate 31 ((initialFormState \<lparr>year = 2024, month = 3, day = 1\<rparr>)\<lparr>lrSets := 1\<rparr>))
        Daily Overall))
   \<noteq> sum_list (map (\<lambda>e. calculateTotalSets (asPartial e))
        (filteredEntries
           (replicate 31 ((initialFormState \<lparr>year = 2024, month = 3, day = 1\<rparr>)\<lparr>lrSets := 1\<rparr>))
           Overall))"
  by code_simp

text \<open>
  C3 (amended). For every record collection and every subject filter: in weekly and
  in monthly mode the total sets of the buckets sum to the total sets of the records
  that match the filter; in daily mode the points sum to the total sets of the last
  30 matching records in date order, which are all of them when at most 30 match.
\<close>

theorem totalSets_preserved:
  "(timePeriod \<noteq> Daily \<longrightarrow>
      sum_list (map TotalSets (chartData tz entries timePeriod selectedSubject))
        = sum_list (map (\<lambda>e. calculateTotalSets (asPartial e))
            (filteredEntries entries selectedSubject)))
   \<and> sum_list (map TotalSets (chartData tz entries Daily selectedSubject))
        = sum_list (map (\<lambda>e. calculateTotalSets (asPartial e))
            (sliceLast 30 (sortedEntries entries selectedSubject)))
   \<and> (length (filteredEntries entries selectedSubject) \<le> 30 \<longrightarrow>
      sum_list (map TotalSets (chartData tz entries Daily selectedSubject))
        = sum_list (map (\<lambda>e. calculateTotalSets (asPartial e))
            (filteredEntries entries selectedSubject)))"
proof (intro conjI impI)
  assume "timePeriod \<noteq> Daily"
  then have "chartData tz entries timePeriod selectedSubject
      = map bucketPoint (groupedData (groupKey tz timePeriod) (sortedEntries entries selectedSubject))"
    by (simp add: chartData_def Let_def)
  then show "sum_list (map TotalSets (chartData tz entries timePeriod selectedSubject))
        = sum_list (map (\<lambda>e. calculateTotalSets (asPartial e))
            (filteredEntries entries selectedSubject))"
    by (simp add: comp_def TotalSets_bucketPoint sum_groupedData sortedEntries_def sum_sort_key)
next
  show d: "sum_list (map TotalSets (chartData tz entries Daily selectedSubject))
        = sum_list (map (\<lambda>e. calculateTotalSets (asPartial e))
            (sliceLast 30 (sortedEntries entries selectedSubject)))"
    by (simp add: chartData_def Let_def sliceLast_map comp_def TotalSets_dailyPoint)
  assume "length (filteredEntries entries selectedSubject) \<le> 30"
  then have "sliceLast 30 (sortedEntries entries selectedSubject)
      = sortedEntries entries selectedSubject"
    by (simp add: sliceLast_all sortedEntries_def)
  with d show "sum_list (map TotalSets (chartData tz entries Daily selectedSubject))
        = sum_list (map (\<lambda>e. calculateTotalSets (asPartial e))
            (filteredEntries entries selectedSubject))"
    by (simp add: sortedEntries_def sum_sort_key)
qed

theorem totalSets_preserved_witness:
  "Monthly \<noteq> Daily
   \<and> sum_list (map TotalSets (chartData 0 scenarioEntries Monthly Overall)) = 4
   \<and> length (filteredEntries scenarioEntries Overall) \<le> 30
   \<and> sum_list (map TotalSets (chartData 0 scenarioEntries Daily Overall)) = 4"
proof -
  have s: "sum_list (map (\<lambda>e. calculateTotalSets (asPartial e))
             (filteredEntries scenarioEntries Overall)) = 4" by code_simp
  have l: "length (filteredEntries scenarioEntries Overall) \<le> 30" by code_simp
  from totalSets_preserved [of Monthly 0 scenarioEntries Overall] s l show ?thesis by simp
qed

lemma firstSeen_snoc:
  "firstSeen (xs @ [x]) = (if x \<in> set xs then firstSeen xs else firstSeen xs @ [x])"
  by (simp add: firstSeen_def)

lemma set_firstSeen: "set (firstSeen xs) = set xs"
  by (simp add: firstSeen_def)

lemma distinct_firstSeen: "distinct (firstSeen xs)"
  by (simp add: firstSeen_def)

lemma pushGrouped_map:
  "distinct ks \<Longrightarrow>
   pushGrouped k x (map (\<lambda>k'. (k', f k')) ks)
     = (if k \<in> set ks then map (\<lambda>k'. (k', if k' = k then f k' @ [x] else f k')) ks
        else map (\<lambda>k'. (k', f k')) ks @ [(k, [x])])"
  by (induction ks) auto

lemma groupedData_firstSeen:
  "groupedData keyOf xs
     = map (\<lambda>k. (k, filter (\<lambda>e. keyOf e = k) xs)) (firstSeen (map keyOf xs))"
proof (induction xs rule: rev_induct)
  case Nil
  show ?case by (simp add: groupedData_def firstSeen_def)
next
  case (snoc x xs)
  let ?ks = "firstSeen (map keyOf xs)"
  have "groupedData keyOf (xs @ [x]) = pushGrouped (keyOf x) x (groupedData keyOf xs)"
    by (simp add: groupedData_def)
  also have "\<dots> = pushGrouped (keyOf x) x (map (\<lambda>k. (k, filter (\<lambda>e. keyOf e = k) xs)) ?ks)"
    by (simp only: snoc.IH)
  also have "\<dots> = map (\<lambda>k. (k, filter (\<lambda>e. keyOf e = k) (xs @ [x])))
                     (firstSeen (map keyOf (xs @ [x])))"
  proof (cases "keyOf x \<in> set ?ks")
    case True
    then have "keyOf x \<in> keyOf ` set xs" by (simp add: set_firstSeen)
    then show ?thesis
      using True by (simp add: pushGrouped_map distinct_firstSeen firstSeen_snoc)
  next
    case False
    then have n: "keyOf x \<notin> keyOf ` set xs" by (simp add: set_firstSeen)
    then have e: "filter (\<lambda>e. keyOf e = keyOf x) xs = []"
      by (auto simp: filter_empty_conv image_iff)
    have "\<And>k. k \<in> set ?ks \<Longrightarrow> keyOf x \<noteq> k" using False by auto
    then show ?thesis
      using False n e by (simp add: pushGrouped_map distinct_firstSeen firstSeen_snoc)
  qed
  finally show ?case .
qed

lemma bucketPoint_spec:
  "bucketPoint (k, g) =
     \<lparr>name = KeyLabel k,
      Accuracy = roundedAccuracy (sum_list (map correctAnswers g))
                   (sum_list (map questionsAttempted g)),
      TotalSets = sum_list (map (\<lambda>e. calculateTotalSets (asPartial e)) g)\<rparr>"
  by (simp add: bucketPoint_def Let_def foldl_add_sum_list roundedAccuracy_def
      parseFloatFixed2_0)

lemma roundedAccuracy_two_decimals:
  "\<exists>n. roundedAccuracy c a = roundToDouble (of_int n / 100)"
proof (cases "0 < a")
  case True
  let ?x = "roundToDouble (roundToDouble (of_int c / of_int a) * 100)"
  have "toFixed2 ?x = of_int (- \<lfloor>- ?x * 100 + 1 / 2\<rfloor>) / 100
      \<or> toFixed2 ?x = of_int \<lfloor>?x * 100 + 1 / 2\<rfloor> / 100"
    by (simp add: toFixed2_def)
  then obtain n where n: "toFixed2 ?x = of_int n / 100" by blast
  have "roundedAccuracy c a = roundToDouble (toFixed2 ?x)"
    using True by (simp only: roundedAccuracy_def parseFloatFixed2_def if_True)
  then have "roundedAccuracy c a = roundToDouble (of_int n / 100)"
    by (simp only: n)
  then show ?thesis by (rule exI)
next
  case False
  have "roundedAccuracy c a = roundToDouble (of_int 0 / 100)"
    using False by (simp add: roundedAccuracy_def roundToDouble_def)
  then show ?thesis by (rule exI)
qed

text \<open>The example inputs, evaluated step by step.\<close>

lemma skewed_sorted: "sortedEntries skewedEntries Overall = skewedEntries"
  by code_simp

lemma skewed_keys:
  "map (groupKey 0 Weekly) skewedEntries = [WeekKey 2024 9, WeekKey 2024 9]"
  "map (groupKey 0 Monthly) skewedEntries = [MonthKey 2024 3, MonthKey 2024 3]"
  by code_simp+

lemma skewed_grouped:
  "groupedData (groupKey 0 Weekly) skewedEntries = [(WeekKey 2024 9, skewedEntries)]"
  "groupedData (groupKey 0 Monthly) skewedEntries = [(MonthKey 2024 3, skewedEntries)]"
  using skewed_keys by (simp_all add: groupedData_def skewedEntries_def)

lemma skewed_points:
  "Accuracy (bucketPoint (WeekKey 2024 9, skewedEntries)) = roundToDouble (909 / 100)"
  "Accuracy (bucketPoint (MonthKey 2024 3, skewedEntries)) = roundToDouble (909 / 100)"
  by code_simp+

lemma scenario_sorted: "sortedEntries scenarioEntries Overall = scenarioEntries"
  by code_simp

lemma scenario_keys:
  "map (groupKey 0 Monthly) scenarioEntries = [MonthKey 2024 3, MonthKey 2024 3]"
  by code_simp

lemma scenario_grouped:
  "groupedData (groupKey 0 Monthly) scenarioEntries = [(MonthKey 2024 3, scenarioEntries)]"
  using scenario_keys by (simp add: groupedData_def scenarioEntries_def)

lemma scenario_point:
  "bucketPoint (MonthKey 2024 3, scenarioEntries)
     = \<lparr>name = KeyLabel (MonthKey 2024 3), Accuracy = roundToDouble (6667 / 100),
        TotalSets = 4\<rparr>"
  by code_simp

lemma rounding_sorted: "sortedEntries roundingEntries Overall = roundingEntries"
  by code_simp

lemma rounding_keys:
  "map (groupKey 0 Monthly) roundingEntries = [MonthKey 2024 3, MonthKey 2024 3]"
  by code_simp

lemma rounding_grouped:
  "groupedData (groupKey 0 Monthly) roundingEntries = [(MonthKey 2024 3, roundingEntries)]"
  using rounding_keys by (simp add: groupedData_def roundingEntries_def)

lemma rounding_point:
  "Accuracy (bucketPoint (MonthKey 2024 3, roundingEntries)) = roundToDouble (1437 / 100)"
  by code_simp

text \<open>
  The bucket of 20 of 80 and 3 of 80 holds 14.37: the double of 23 / 160 * 100 lies
  just below 14.375. The exact quotient is 14.375, and rounded as an exact number
  it would be 14.38.
\<close>

lemma rounding_values:
  "map Accuracy (chartData 0 roundingEntries Monthly Overall) = [roundToDouble (1437 / 100)]
   \<and> weightedAccuracy roundingEntries = 115 / 8
   \<and> toFixed2 (weightedAccuracy roundingEntries) = 1438 / 100
   \<and> roundToDouble (1437 / 100) \<noteq> roundToDouble (1438 / 100)"
proof (intro conjI)
  show "map Accuracy (chartData 0 roundingEntries Monthly Overall)
      = [roundToDouble (1437 / 100)]"
    by (simp add: chartData_def rounding_sorted rounding_grouped rounding_point)
  show "weightedAccuracy roundingEntries = 115 / 8" by code_simp
  show "toFixed2 (weightedAccuracy roundingEntries) = 1438 / 100" by code_simp
  show "roundToDouble (1437 / 100) \<noteq> roundToDouble (1438 / 100)" by code_simp
qed

text \<open>
  C4 as stated fails: the accuracy of a bucket is not the exact quotient of the sums
  times 100, and not that quotient with two decimals either. For 20 of 80 and 3 of
  80 in one month the quotient is 14.375, which is 14.38 with two decimals, and the
  bucket holds 14.37.
\<close>

theorem bucket_accuracy_counterexample:
  "map Accuracy (chartData 0 roundingEntries Monthly Overall)
     \<noteq> [weightedAccuracy roundingEntries]
   \<and> map Accuracy (chartData 0 roundingEntries Monthly Overall)
     \<noteq> [parseFloatFixed2 (weightedAccuracy roundingEntries)]"
proof -
  have "map Accuracy (chartData 0 roundingEntries Monthly Overall)
      = [roundToDouble (1437 / 100)]"
    by (simp add: chartData_def rounding_sorted rounding_grouped rounding_point)
  moreover have "roundToDouble (1437 / 100) \<noteq> weightedAccuracy roundingEntries"
    by code_simp
  moreover have "roundToDouble (1437 / 100)
      \<noteq> parseFloatFixed2 (weightedAccuracy roundingEntries)"
    by code_simp
  ultimately show ?thesis by simp
qed

text \<open>
  C4 (amended). In weekly and in monthly mode the output has one point for each key,
  in the order in which the keys first occur among the sorted records, and the
  accuracy of the point is computed from the two sums of the records with that key,
  the summed correct answers \<open>c\<close> and the summed attempts \<open>a\<close>: when \<open>a\<close> is positive it
  is \<open>c / a * 100\<close> in double precision, printed with two decimals and read back,
  which is a double with two decimals that differs from the exact \<open>c / a * 100\<close> by at
  most half a hundredth (and the \<open>2\<^sup>5\<^sup>0\<close>-th part of that number plus one); it is 0
  when \<open>a\<close> is not positive. It is not the mean of the accuracies of the records: 10
  of 10 and 0 of 100 in one bucket give 9.09, and their mean is 50.
\<close>

theorem bucket_accuracy_weighted:
  "(timePeriod \<noteq> Daily \<longrightarrow>
      chartData tz entries timePeriod selectedSubject =
        map (\<lambda>k. let g = filter (\<lambda>e. groupKey tz timePeriod e = k)
                             (sortedEntries entries selectedSubject)
                 in \<lparr>name = KeyLabel k,
                     Accuracy = roundedAccuracy (sum_list (map correctAnswers g))
                                  (sum_list (map questionsAttempted g)),
                     TotalSets = sum_list (map (\<lambda>e. calculateTotalSets (asPartial e)) g)\<rparr>)
          (firstSeen (map (groupKey tz timePeriod) (sortedEntries entries selectedSubject))))
   \<and> (0 < a \<longrightarrow>
        \<bar>roundedAccuracy c a - of_int c / of_int a * 100\<bar>
          \<le> 1 / 200 + (\<bar>of_int c / of_int a * 100\<bar> + 1) / 2 ^ 50)
   \<and> (a \<le> 0 \<longrightarrow> roundedAccuracy c a = 0)
   \<and> (\<exists>n. roundedAccuracy c a = roundToDouble (of_int n / 100))
   \<and> map Accuracy (chartData 0 skewedEntries Monthly Overall) = [roundToDouble (909 / 100)]
   \<and> map Accuracy (chartData 0 skewedEntries Weekly Overall) = [roundToDouble (909 / 100)]
   \<and> meanAccuracy skewedEntries = 50"
proof (intro conjI impI)
  assume a: "timePeriod \<noteq> Daily"
  have "\<And>k. bucketPoint (k, filter (\<lambda>e. groupKey tz timePeriod e = k)
                          (sortedEntries entries selectedSubject))
     = (let g = filter (\<lambda>e. groupKey tz timePeriod e = k)
                          (sortedEntries entries selectedSubject)
              in \<lparr>name = KeyLabel k,
                  Accuracy = roundedAccuracy (sum_list (map correctAnswers g))
                               (sum_list (map questionsAttempted g)),
                  TotalSets = sum_list (map (\<lambda>e. calculateTotalSets (asPartial e)) g)\<rparr>)"
    unfolding Let_def by (rule bucketPoint_spec)
  then show "chartData tz entries timePeriod selectedSubject =
        map (\<lambda>k. let g = filter (\<lambda>e. groupKey tz timePeriod e = k)
                             (sortedEntries entries selectedSubject)
                 in \<lparr>name = KeyLabel k,
                     Accuracy = roundedAccuracy (sum_list (map correctAnswers g))
                                  (sum_list (map questionsAttempted g)),
                     TotalSets = sum_list (map (\<lambda>e. calculateTotalSets (asPartial e)) g)\<rparr>)
          (firstSeen (map (groupKey tz timePeriod) (sortedEntries entries selectedSubject)))"
    using a by (simp add: chartData_def Let_def groupedData_firstSeen comp_def)
next
  assume "0 < a"
  then show "\<bar>roundedAccuracy c a - of_int c / of_int a * 100\<bar>
          \<le> 1 / 200 + (\<bar>of_int c / of_int a * 100\<bar> + 1) / 2 ^ 50"
    using percent_error [of "of_int c / of_int a"] by (simp add: roundedAccuracy_def)
next
  assume "a \<le> 0"
  then show "roundedAccuracy c a = 0" by (simp add: roundedAccuracy_def)
next
  show "\<exists>n. roundedAccuracy c a = roundToDouble (of_int n / 100)"
    by (rule roundedAccuracy_two_decimals)
next
  show "map Accuracy (chartData 0 skewedEntries Monthly Overall) = [roundToDouble (909 / 100)]"
    by (simp add: chartData_def skewed_sorted skewed_grouped skewed_points)
  show "map Accuracy (chartData 0 skewedEntries Weekly Overall) = [roundToDouble (909 / 100)]"
    by (simp add: chartData_def skewed_sorted skewed_grouped skewed_points)
  show "meanAccuracy skewedEntries = 50"
    by code_simp
qed

theorem bucket_accuracy_weighted_witness:
  "Monthly \<noteq> Daily
   \<and> chartData 0 scenarioEntries Monthly Overall =
        map (\<lambda>k. let g = filter (\<lambda>e. groupKey 0 Monthly e = k)
                             (sortedEntries scenarioEntries Overall)
                 in \<lparr>name = KeyLabel k,
                     Accuracy = roundedAccuracy (sum_list (map correctAnswers g))
                                  (sum_list (map questionsAttempted g)),
                     TotalSets = sum_list (map (\<lambda>e. calculateTotalSets (asPartial e)) g)\<rparr>)
          (firstSeen (map (groupKey 0 Monthly) (sortedEntries scenarioEntries Overall)))
   \<and> (0::int) < 18
   \<and> roundedAccuracy 12 18 = roundToDouble (6667 / 100)
   \<and> \<bar>roundedAccuracy 12 18 - of_int 12 / of_int 18 * 100\<bar>
        \<le> 1 / 200 + (\<bar>of_int 12 / of_int 18 * 100\<bar> + 1) / 2 ^ 50
   \<and> \<not> (0::int) < 0
   \<and> roundedAccuracy 5 0 = 0"
proof -
  have v: "roundedAccuracy 12 18 = roundToDouble (6667 / 100)" by code_simp
  have b: "\<bar>roundedAccuracy 12 18 - of_int 12 / of_int 18 * 100\<bar>
        \<le> 1 / 200 + (\<bar>of_int 12 / of_int 18 * 100\<bar> + 1) / 2 ^ 50"
    using bucket_accuracy_weighted [of Monthly 0 scenarioEntries Overall 18 12] by simp
  have z: "roundedAccuracy 5 0 = 0"
    using bucket_accuracy_weighted [of Monthly 0 scenarioEntries Overall 0 5] by simp
  have m: "chartData 0 scenarioEntries Monthly Overall =
        map (\<lambda>k. let g = filter (\<lambda>e. groupKey 0 Monthly e = k)
                             (sortedEntries scenarioEntries Overall)
                 in \<lparr>name = KeyLabel k,
                     Accuracy = roundedAccuracy (sum_list (map correctAnswers g))
                                  (sum_list (map questionsAttempted g)),
                     TotalSets = sum_list (map (\<lambda>e. calculateTotalSets (asPartial e)) g)\<rparr>)
          (firstSeen (map (groupKey 0 Monthly) (sortedEntries scenarioEntries Overall)))"
    using bucket_accuracy_weighted [of Monthly 0 scenarioEntries Overall 18 12] by simp
  show ?thesis using v b z m by (intro conjI) simp_all
qed

text \<open>
  The end-to-end scenario of the specification: the two March records give one
  monthly bucket with 4 sets and accuracy 66.67.
\<close>

lemma scenario_monthly:
  "chartData 0 scenarioEntries Monthly Overall
     = [\<lparr>name = KeyLabel (MonthKey 2024 3), Accuracy = roundToDouble (6667 / 100),
         TotalSets = 4\<rparr>]"
  by (simp add: chartData_def scenario_sorted scenario_grouped scenario_point)

text \<open>
  In daily mode as well the accuracy of a point is the double, printed with two
  decimals: a record with 23 of 160 gives 14.37.
\<close>

lemma daily_rounding_example:
  "Accuracy (dailyPoint ((initialFormState \<lparr>year = 2024, month = 3, day = 1\<rparr>)
       \<lparr>questionsAttempted := 160, correctAnswers := 23\<rparr>))
     = roundToDouble (1437 / 100)"
  by code_simp

section \<open>The keyword analysis\<close>

lemma dropWhile_keeps: "x \<in> set xs \<Longrightarrow> \<not> P x \<Longrightarrow> x \<in> set (dropWhile P xs)"
  by (induction xs) auto

lemma trim_Nil_iff: "trim s = [] \<longleftrightarrow> (\<forall>c \<in> set s. isSpace c)"
proof
  assume "trim s = []"
  then have a: "\<forall>c \<in> set (dropWhile isSpace s). isSpace c"
    by (simp add: trim_def dropWhile_eq_Nil_conv)
  show "\<forall>c \<in> set s. isSpace c"
  proof (rule ccontr)
    assume "\<not> (\<forall>c \<in> set s. isSpace c)"
    then obtain c where "c \<in> set s" "\<not> isSpace c" by auto
    then have "c \<in> set (dropWhile isSpace s)" by (rule dropWhile_keeps)
    with a \<open>\<not> isSpace c\<close> show False by auto
  qed
next
  assume "\<forall>c \<in> set s. isSpace c"
  then show "trim s = []"
    by (auto simp: trim_def dest: set_dropWhileD)
qed

lemma set_join: "x \<in> set xs \<Longrightarrow> set x \<subseteq> set (join sep xs)"
  by (induction sep xs rule: join.induct) auto

lemma allLearnings_blank:
  "trim (allLearnings entries) = [] \<longleftrightarrow> (\<forall>e \<in> set entries. trim (learnings e) = [])"
proof
  assume l: "trim (allLearnings entries) = []"
  show "\<forall>e \<in> set entries. trim (learnings e) = []"
  proof (rule ccontr)
    assume "\<not> (\<forall>e \<in> set entries. trim (learnings e) = [])"
    then obtain e where e: "e \<in> set entries" "trim (learnings e) \<noteq> []" by auto
    then obtain c where c: "c \<in> set (learnings e)" "\<not> isSpace c"
      by (auto simp: trim_Nil_iff)
    from e have "learnings e \<in> set (filter (\<lambda>l. trim l \<noteq> []) (map learnings entries))"
      by auto
    then have "set (learnings e) \<subseteq> set (allLearnings entries)"
      unfolding allLearnings_def by (rule set_join)
    with c l show False by (auto simp: trim_Nil_iff)
  qed
next
  assume "\<forall>e \<in> set entries. trim (learnings e) = []"
  then have "filter (\<lambda>l. trim l \<noteq> []) (map learnings entries) = []"
    by (auto simp: filter_empty_conv)
  then show "trim (allLearnings entries) = []"
    by (simp add: allLearnings_def trim_def)
qed

lemma wordFrequencies_none:
  assumes "\<forall>w \<in> set ws. w \<in> set stopWords \<or> length w \<le> 3"
  shows "wordFrequencies ws = []"
proof -
  have "fold (\<lambda>word tbl. if word \<notin> set stopWords \<and> length word > 3 then countWord word tbl
                       else tbl) ws tbl = tbl" for tbl
    using assms by (induction ws arbitrary: tbl) auto
  then show ?thesis by (simp add: wordFrequencies_def)
qed

lemma sortedKeywords_none:
  assumes "\<forall>w \<in> set (words text). w \<in> set stopWords \<or> length w \<le> 3"
  shows "sortedKeywords text = Some []"
  by (simp add: sortedKeywords_def wordFrequencies_none [OF assms] objectEntries_def
      sortByCount_def)

text \<open>
  C7. When the notes of every record are empty or white space, the analysis gives the
  message that nothing is logged; when some notes are not, but every token is a stop
  word or has at most 3 characters, it gives the other message, that the data is not
  enough. The two messages differ, and both results are values (\<open>Some\<close>), not
  failures.
\<close>

theorem keyword_sentinels:
  "((\<forall>e \<in> set entries. trim (learnings e) = []) \<longrightarrow>
      analysisMessages entries = Some [noDataMessage])
   \<and> ((\<exists>e \<in> set entries. trim (learnings e) \<noteq> [])
        \<and> (\<forall>w \<in> set (words (allLearnings entries)). w \<in> set stopWords \<or> length w \<le> 3) \<longrightarrow>
      analysisMessages entries = Some [notEnoughMessage])
   \<and> noDataMessage \<noteq> notEnoughMessage"
proof (intro conjI impI)
  assume "\<forall>e \<in> set entries. trim (learnings e) = []"
  then show "analysisMessages entries = Some [noDataMessage]"
    by (simp add: analysisMessages_def allLearnings_blank)
next
  assume a: "(\<exists>e \<in> set entries. trim (learnings e) \<noteq> [])
        \<and> (\<forall>w \<in> set (words (allLearnings entries)). w \<in> set stopWords \<or> length w \<le> 3)"
  then have "trim (allLearnings entries) \<noteq> []" by (simp add: allLearnings_blank)
  moreover from a have "sortedKeywords (allLearnings entries) = Some []"
    by (intro sortedKeywords_none) simp
  ultimately show "analysisMessages entries = Some [notEnoughMessage]"
    by (simp add: analysisMessages_def)
next
  show "noDataMessage \<noteq> notEnoughMessage"
    by (simp add: noDataMessage_def notEnoughMessage_def)
qed

theorem keyword_sentinels_witness:
  "list_all (\<lambda>e. trim (learnings e) = [])
     [(initialFormState \<lparr>year = 2024, month = 3, day = 1\<rparr>)\<lparr>learnings := ''  ''\<rparr>]
   \<and> analysisMessages
     [(initialFormState \<lparr>year = 2024, month = 3, day = 1\<rparr>)\<lparr>learnings := ''  ''\<rparr>]
       = Some [noDataMessage]
   \<and> list_ex (\<lambda>e. trim (learnings e) \<noteq> [])
     [(initialFormState \<lparr>year = 2024, month = 3, day = 1\<rparr>)\<lparr>learnings := ''The cat.''\<rparr>]
   \<and> list_all (\<lambda>w. w \<in> set stopWords \<or> length w \<le> 3)
     (words (allLearnings
       [(initialFormState \<lparr>year = 2024, month = 3, day = 1\<rparr>)\<lparr>learnings := ''The cat.''\<rparr>]))
   \<and> analysisMessages
     [(initialFormState \<lparr>year = 2024, month = 3, day = 1\<rparr>)\<lparr>learnings := ''The cat.''\<rparr>]
       = Some [notEnoughMessage]"
proof -
  let ?e1 = "[(initialFormState \<lparr>year = 2024, month = 3, day = 1\<rparr>)\<lparr>learnings := ''  ''\<rparr>]"
  let ?e2 = "[(initialFormState \<lparr>year = 2024, month = 3, day = 1\<rparr>)\<lparr>learnings := ''The cat.''\<rparr>]"
  have a1: "list_all (\<lambda>e. trim (learnings e) = []) ?e1" by code_simp
  have a2: "list_ex (\<lambda>e. trim (learnings e) \<noteq> []) ?e2" by code_simp
  have a3: "list_all (\<lambda>w. w \<in> set stopWords \<or> length w \<le> 3) (words (allLearnings ?e2))"
    by code_simp
  from a1 have "analysisMessages ?e1 = Some [noDataMessage]"
    using keyword_sentinels [of ?e1] by (simp add: list_all_iff)
  moreover from a2 a3 have "analysisMessages ?e2 = Some [notEnoughMessage]"
    using keyword_sentinels [of ?e2] by (simp add: list_all_iff list_ex_iff)
  ultimately show ?thesis using a1 a2 a3 by simp
qed

lemma filter_dropWhile_not: "filter (\<lambda>c. \<not> P c) (dropWhile P xs) = filter (\<lambda>c. \<not> P c) xs"
  by (induction xs) auto

lemma filter_takeWhile_same: "filter P (takeWhile P xs) = takeWhile P xs"
  by (induction xs) auto

lemma filter_not_space_split:
  "filter (\<lambda>c. \<not> isSpace c) s
     = takeWhile (\<lambda>c. \<not> isSpace c) s
       @ filter (\<lambda>c. \<not> isSpace c) (dropWhile isSpace (dropWhile (\<lambda>c. \<not> isSpace c) s))"
proof -
  have "filter (\<lambda>c. \<not> isSpace c) s
      = filter (\<lambda>c. \<not> isSpace c)
          (takeWhile (\<lambda>c. \<not> isSpace c) s @ dropWhile (\<lambda>c. \<not> isSpace c) s)"
    by (simp only: takeWhile_dropWhile_id)
  also have "\<dots> = takeWhile (\<lambda>c. \<not> isSpace c) s
       @ filter (\<lambda>c. \<not> isSpace c) (dropWhile (\<lambda>c. \<not> isSpace c) s)"
    by (simp only: filter_append filter_takeWhile_same)
  finally show ?thesis by (simp only: filter_dropWhile_not)
qed

lemma concat_splitWs: "concat (splitWs s) = filter (\<lambda>c. \<not> isSpace c) s"
proof (induction s rule: splitWs.induct)
  case (1 s)
  let ?piece = "takeWhile (\<lambda>c. \<not> isSpace c) s"
  let ?rest = "dropWhile (\<lambda>c. \<not> isSpace c) s"
  show ?case
  proof (cases "?rest = []")
    case True
    have "splitWs s = [?piece]"
      by (subst splitWs.simps) (simp only: True simp_thms if_True)
    then have "concat (splitWs s) = ?piece" by simp
    also have "\<dots> = ?piece @ filter (\<lambda>c. \<not> isSpace c) (dropWhile isSpace ?rest)"
      by (simp only: True dropWhile.simps filter.simps append_Nil2)
    also have "\<dots> = filter (\<lambda>c. \<not> isSpace c) s"
      by (rule filter_not_space_split [symmetric])
    finally show ?thesis .
  next
    case False
    have "splitWs s = ?piece # splitWs (dropWhile isSpace ?rest)"
      by (subst splitWs.simps) (simp only: False if_False)
    then have "concat (splitWs s) = ?piece @ concat (splitWs (dropWhile isSpace ?rest))"
      by simp
    also have "\<dots> = ?piece @ filter (\<lambda>c. \<not> isSpace c) (dropWhile isSpace ?rest)"
      by (simp only: 1 [OF False])
    also have "\<dots> = filter (\<lambda>c. \<not> isSpace c) s"
      by (rule filter_not_space_split [symmetric])
    finally show ?thesis .
  qed
qed

text \<open>
  C10. The tokens, put together, are the lower-cased text without its periods, its
  commas and its white space: every other character, and so every other punctuation
  mark, stays in its token. A word followed by a question mark is therefore another
  term than the word alone, while a word followed by a period is the same term.
\<close>

theorem punctuation_kept:
  "concat (words text)
     = filter (\<lambda>c. c \<noteq> CHR ''.'' \<and> c \<noteq> CHR '','' \<and> \<not> isSpace c) (toLowerCase text)
   \<and> sortedKeywords ''wrong? wrong'' = Some [''wrong?'', ''wrong'']
   \<and> sortedKeywords ''wrong. wrong'' = Some [''wrong'']
   \<and> words ''Note! note; NOTE: note? note, note.''
       = [''note!'', ''note;'', ''note:'', ''note?'', ''note'', ''note'']"
proof (intro conjI)
  show "concat (words text)
     = filter (\<lambda>c. c \<noteq> CHR ''.'' \<and> c \<noteq> CHR '','' \<and> \<not> isSpace c) (toLowerCase text)"
    by (simp add: words_def concat_splitWs conj_commute conj_left_commute)
  have w1: "words ''wrong? wrong'' = [''wrong?'', ''wrong'']" by code_simp
  have r1: "map_option (\<lambda>kvs. map fst (take 5 kvs))
        (sortByCount (objectEntries (wordFrequencies [''wrong?'', ''wrong''])))
      = Some [''wrong?'', ''wrong'']" by code_simp
  show "sortedKeywords ''wrong? wrong'' = Some [''wrong?'', ''wrong'']"
    unfolding sortedKeywords_def w1 by (rule r1)
  have w2: "words ''wrong. wrong'' = [''wrong'', ''wrong'']" by code_simp
  have r2: "map_option (\<lambda>kvs. map fst (take 5 kvs))
        (sortByCount (objectEntries (wordFrequencies [''wrong'', ''wrong''])))
      = Some [''wrong'']" by code_simp
  show "sortedKeywords ''wrong. wrong'' = Some [''wrong'']"
    unfolding sortedKeywords_def w2 by (rule r2)
  show "words ''Note! note; NOTE: note? note, note.''
       = [''note!'', ''note;'', ''note:'', ''note?'', ''note'', ''note'']"
    by code_simp
qed

theorem punctuation_kept_witness:
  "concat (words ''No. Why?, ok!'') = ''nowhy?ok!''"
proof -
  have "filter (\<lambda>c. c \<noteq> CHR ''.'' \<and> c \<noteq> CHR '','' \<and> \<not> isSpace c)
          (toLowerCase ''No. Why?, ok!'') = ''nowhy?ok!''"
    by code_simp
  with punctuation_kept [of "''No. Why?, ok!''"] show ?thesis by simp
qed

section \<open>The ranking of the keywords\<close>

lemma fold_if_filter:
  "fold (\<lambda>w t. if P w then f w t else t) ws t0 = fold f (filter P ws) t0"
  by (induction ws arbitrary: t0) simp_all

lemma map_of_keyed:
  "map_of (map (\<lambda>k. (k, f k)) ks) w = (if w \<in> set ks then Some (f w) else None)"
  by (induction ks) auto

lemma setKey_keyed:
  "distinct ks \<Longrightarrow>
   setKey w v (map (\<lambda>k. (k, f k)) ks)
     = (if w \<in> set ks then map (\<lambda>k. (k, if k = w then v else f k)) ks
        else map (\<lambda>k. (k, f k)) ks @ [(w, v)])"
  by (induction ks) auto

lemma count_list_snoc: "count_list (ws @ [w]) k = count_list ws k + (if k = w then 1 else 0)"
  by (induction ws) auto

lemma count_list_0: "w \<notin> set ws \<Longrightarrow> count_list ws w = 0"
  by (induction ws) auto

lemma fold_countWord:
  assumes "\<forall>w \<in> set ws. w \<noteq> ''constructor'' \<and> w \<noteq> ''__proto__''"
  shows "fold countWord ws [] = map (\<lambda>k. (k, Count (count_list ws k))) (firstSeen ws)"
  using assms
proof (induction ws rule: rev_induct)
  case Nil
  show ?case by (simp add: firstSeen_def)
next
  case (snoc w ws)
  let ?T = "map (\<lambda>k. (k, Count (count_list ws k))) (firstSeen ws)"
  from snoc have T: "fold countWord ws [] = ?T" by simp
  from snoc.prems have w: "w \<noteq> ''constructor''" "w \<noteq> ''__proto__''" by simp_all
  have "fold countWord (ws @ [w]) [] = countWord w ?T" by (simp add: T)
  also have "\<dots> = map (\<lambda>k. (k, Count (count_list (ws @ [w]) k))) (firstSeen (ws @ [w]))"
  proof (cases "w \<in> set ws")
    case True
    then have "countWord w ?T = setKey w (Count (count_list ws w + 1)) ?T"
      by (simp add: countWord_def map_of_keyed set_firstSeen)
    also have "\<dots> = map (\<lambda>k. (k, if k = w then Count (count_list ws w + 1)
                                    else Count (count_list ws k))) (firstSeen ws)"
      using True by (simp add: setKey_keyed distinct_firstSeen set_firstSeen)
    also have "\<dots> = map (\<lambda>k. (k, Count (count_list (ws @ [w]) k))) (firstSeen ws)"
      by (rule map_cong) (auto simp: count_list_snoc)
    finally show ?thesis using True by (simp add: firstSeen_snoc)
  next
    case False
    then have "countWord w ?T = setKey w (Count 1) ?T"
      using w by (simp add: countWord_def map_of_keyed set_firstSeen)
    also have "\<dots> = ?T @ [(w, Count 1)]"
      using False by (simp add: setKey_keyed distinct_firstSeen set_firstSeen)
    finally have l: "countWord w ?T = ?T @ [(w, Count 1)]" .
    have e1: "map (\<lambda>k. (k, Count (count_list (ws @ [w]) k))) (firstSeen ws) = ?T"
    proof (rule map_cong)
      show "firstSeen ws = firstSeen ws" ..
    next
      fix k assume "k \<in> set (firstSeen ws)"
      then have "k \<noteq> w" using False by (auto simp: set_firstSeen)
      then show "(k, Count (count_list (ws @ [w]) k)) = (k, Count (count_list ws k))"
        by simp
    qed
    have e2: "count_list (ws @ [w]) w = 1"
      using False by (simp add: count_list_0)
    have "map (\<lambda>k. (k, Count (count_list (ws @ [w]) k))) (firstSeen (ws @ [w]))
        = map (\<lambda>k. (k, Count (count_list (ws @ [w]) k))) (firstSeen ws)
          @ [(w, Count (count_list (ws @ [w]) w))]"
      using False by (simp add: firstSeen_snoc)
    also have "\<dots> = ?T @ [(w, Count 1)]" by (simp only: e1 e2)
    finally show ?thesis using l by simp
  qed
  finally show ?case .
qed

lemma objectEntries_plain:
  assumes "\<forall>kv \<in> set tbl. \<not> isArrayIndex (fst kv)"
  shows "objectEntries tbl = tbl"
proof -
  have "filter (\<lambda>kv. isArrayIndex (fst kv)) tbl = []"
    using assms by (auto simp: filter_empty_conv)
  moreover have "filter (\<lambda>kv. \<not> isArrayIndex (fst kv)) tbl = tbl"
    using assms by (auto simp: filter_id_conv)
  ultimately show ?thesis by (simp add: objectEntries_def)
qed

lemma insort_key_map: "insort_key f (g x) (map g ys) = map g (insort_key (\<lambda>y. f (g y)) x ys)"
  by (induction ys) simp_all

lemma sort_key_map: "sort_key f (map g xs) = map g (sort_key (\<lambda>y. f (g y)) xs)"
  by (induction xs) (simp_all add: insort_key_map)

lemma sortByCount_counts:
  "sortByCount (map (\<lambda>k. (k, Count (c k))) ks)
     = Some (map (\<lambda>k. (k, Count (c k))) (sort_key (\<lambda>k. - int (c k)) ks))"
proof -
  have "list_all (\<lambda>kv. snd kv \<noteq> NotANumber) (map (\<lambda>k. (k, Count (c k))) ks)"
    by (simp add: list_all_iff)
  then show ?thesis by (simp add: sortByCount_def sort_key_map)
qed

lemma sortedKeywords_plain:
  assumes "\<forall>w \<in> set (survivingTokens text). plainWord w"
  shows "sortedKeywords text = Some (take 5 (rankedTokens (survivingTokens text)))"
proof -
  let ?S = "survivingTokens text"
  have "wordFrequencies (words text) = fold countWord ?S []"
    by (simp add: wordFrequencies_def survivingTokens_def fold_if_filter)
  also have "\<dots> = map (\<lambda>k. (k, Count (count_list ?S k))) (firstSeen ?S)"
    using assms by (intro fold_countWord) (simp add: plainWord_def)
  finally have T: "wordFrequencies (words text)
      = map (\<lambda>k. (k, Count (count_list ?S k))) (firstSeen ?S)" .
  have "objectEntries (wordFrequencies (words text)) = wordFrequencies (words text)"
    using assms unfolding T by (intro objectEntries_plain) (auto simp: set_firstSeen plainWord_def)
  then show ?thesis
    by (simp add: sortedKeywords_def T sortByCount_counts rankedTokens_def take_map comp_def)
qed

lemma sorted_wrt_insort_stable:
  assumes "sorted_wrt (\<lambda>a b. f a < f b \<or> (f a = f b \<and> pos a < pos b)) ys"
      and "\<forall>z \<in> set ys. pos x < pos z"
  shows "sorted_wrt (\<lambda>a b. f a < f b \<or> (f a = f b \<and> pos a < pos b)) (insort_key f x ys)"
  using assms
proof (induction ys)
  case Nil
  show ?case by simp
next
  case (Cons y ys)
  show ?case
  proof (cases "f x \<le> f y")
    case True
    have "\<forall>z \<in> set (y # ys). f x < f z \<or> (f x = f z \<and> pos x < pos z)"
    proof
      fix z assume z: "z \<in> set (y # ys)"
      then have "f y \<le> f z" using Cons.prems(1) by auto
      with True have "f x \<le> f z" by simp
      moreover have "pos x < pos z" using Cons.prems(2) z by auto
      ultimately show "f x < f z \<or> (f x = f z \<and> pos x < pos z)" by auto
    qed
    with True Cons.prems(1) show ?thesis by simp
  next
    case False
    then have "f y < f x" by simp
    moreover have "sorted_wrt (\<lambda>a b. f a < f b \<or> (f a = f b \<and> pos a < pos b)) (insort_key f x ys)"
      using Cons by simp
    ultimately show ?thesis
      using False Cons.prems(1) by (auto simp: set_insort_key)
  qed
qed

lemma sorted_wrt_sort_key_stable:
  assumes "sorted_wrt (\<lambda>a b. pos a < pos b) xs"
  shows "sorted_wrt (\<lambda>a b. f a < f b \<or> (f a = f b \<and> pos a < pos b)) (sort_key f xs)"
  using assms
proof (induction xs)
  case Nil
  show ?case by simp
next
  case (Cons x xs)
  then have "sorted_wrt (\<lambda>a b. f a < f b \<or> (f a = f b \<and> pos a < pos b)) (sort_key f xs)"
    by simp
  moreover have "\<forall>z \<in> set (sort_key f xs). pos x < pos z" using Cons.prems by simp
  ultimately show ?case by (simp add: sorted_wrt_insort_stable)
qed

lemma firstIndex_snoc_in: "a \<in> set ws \<Longrightarrow> firstIndex (ws @ [w]) a = firstIndex ws a"
  by (simp add: firstIndex_def takeWhile_append1 [where x = a])

lemma firstIndex_less: "a \<in> set ws \<Longrightarrow> firstIndex ws a < length ws"
  unfolding firstIndex_def by (induction ws) auto

lemma firstIndex_snoc_new: "w \<notin> set ws \<Longrightarrow> firstIndex (ws @ [w]) w = length ws"
  unfolding firstIndex_def by (induction ws) auto

lemma firstSeen_filter_sorted:
  "sorted_wrt (\<lambda>a b. firstIndex ws a < firstIndex ws b) (firstSeen (filter P ws))"
proof (induction ws rule: rev_induct)
  case Nil
  show ?case by (simp add: firstSeen_def)
next
  case (snoc w ws)
  have old: "sorted_wrt (\<lambda>a b. firstIndex (ws @ [w]) a < firstIndex (ws @ [w]) b)
               (firstSeen (filter P ws))"
    using snoc
    by (rule sorted_wrt_mono_rel [rotated]) (auto simp: set_firstSeen firstIndex_snoc_in)
  show ?case
  proof (cases "P w \<and> w \<notin> set ws")
    case True
    then have "firstSeen (filter P (ws @ [w])) = firstSeen (filter P ws) @ [w]"
      by (simp add: firstSeen_snoc)
    moreover have "\<forall>a \<in> set (firstSeen (filter P ws)).
        firstIndex (ws @ [w]) a < firstIndex (ws @ [w]) w"
      using True by (auto simp: set_firstSeen firstIndex_snoc_in firstIndex_snoc_new firstIndex_less)
    ultimately show ?thesis using old by (simp add: sorted_wrt_append)
  next
    case False
    then have "firstSeen (filter P (ws @ [w])) = firstSeen (filter P ws)"
      by (auto simp: firstSeen_snoc)
    with old show ?thesis by simp
  qed
qed

lemma count_list_filter: "P w \<Longrightarrow> count_list (filter P ws) w = count_list ws w"
  by (induction ws) auto

lemma rankedTokens_sorted:
  "sorted_wrt (rankedBefore (words text)) (rankedTokens (survivingTokens text))"
proof -
  let ?W = "words text"
  let ?P = "\<lambda>w. w \<notin> set stopWords \<and> length w > 3"
  let ?S = "filter ?P ?W"
  let ?f = "\<lambda>w. - int (count_list ?S w)"
  have "sorted_wrt (\<lambda>a b. ?f a < ?f b \<or> (?f a = ?f b \<and> firstIndex ?W a < firstIndex ?W b))
          (sort_key ?f (firstSeen ?S))"
    by (rule sorted_wrt_sort_key_stable) (rule firstSeen_filter_sorted)
  then have "sorted_wrt (rankedBefore ?W) (sort_key ?f (firstSeen ?S))"
  proof (rule sorted_wrt_mono_rel [rotated])
    fix a b
    assume "a \<in> set (sort_key ?f (firstSeen ?S))" "b \<in> set (sort_key ?f (firstSeen ?S))"
    then have "?P a" "?P b" by (auto simp: set_firstSeen)
    then have c: "count_list ?S a = count_list ?W a" "count_list ?S b = count_list ?W b"
      by (simp_all add: count_list_filter)
    assume "?f a < ?f b \<or> (?f a = ?f b \<and> firstIndex ?W a < firstIndex ?W b)"
    then show "rankedBefore ?W a b" by (auto simp: rankedBefore_def c)
  qed
  then show ?thesis by (simp add: rankedTokens_def survivingTokens_def)
qed

text \<open>
  C6 as stated fails. In the notes \<^verbatim>\<open>wrong 2024\<close> both tokens occur once and
  \<^verbatim>\<open>wrong\<close> occurs first, but \<^verbatim>\<open>2024\<close> is an array index, which
  \<^verbatim>\<open>Object.entries\<close> lists before every other key: the result has it first.
\<close>

theorem keyword_ranking_counterexample:
  "sortedKeywords (allLearnings [notesEntry ''wrong 2024'']) = Some [''2024'', ''wrong'']
   \<and> count_list (words (allLearnings [notesEntry ''wrong 2024''])) ''wrong''
       = count_list (words (allLearnings [notesEntry ''wrong 2024''])) ''2024''
   \<and> firstIndex (words (allLearnings [notesEntry ''wrong 2024''])) ''wrong''
       < firstIndex (words (allLearnings [notesEntry ''wrong 2024''])) ''2024''"
proof -
  have a: "allLearnings [notesEntry ''wrong 2024''] = ''wrong 2024''" by code_simp
  have w: "words ''wrong 2024'' = [''wrong'', ''2024'']" by code_simp
  have r: "map_option (\<lambda>kvs. map fst (take 5 kvs))
        (sortByCount (objectEntries (wordFrequencies [''wrong'', ''2024''])))
      = Some [''2024'', ''wrong'']" by code_simp
  have k: "sortedKeywords ''wrong 2024'' = Some [''2024'', ''wrong'']"
    unfolding sortedKeywords_def w by (rule r)
  have c: "count_list [''wrong'', ''2024''] ''wrong'' = count_list [''wrong'', ''2024''] ''2024''"
    by simp
  have i: "firstIndex [''wrong'', ''2024''] ''wrong'' < firstIndex [''wrong'', ''2024''] ''2024''"
    by (simp add: firstIndex_def)
  show ?thesis unfolding a w using k c i by simp
qed

text \<open>
  C6 (amended). For every record collection whose surviving tokens are plain words
  (none is an array index, and none is \<^verbatim>\<open>constructor\<close> or \<^verbatim>\<open>__proto__\<close>), the
  result is the first 5 tokens of the ranking of the surviving tokens: each of them
  once, a token with a larger count before one with a smaller count, and of two
  tokens with equal counts the one that occurs first in the text before the other.
\<close>

theorem keyword_ranking:
  assumes "\<forall>w \<in> set (survivingTokens (allLearnings entries)). plainWord w"
  shows "sortedKeywords (allLearnings entries)
           = Some (take 5 (rankedTokens (survivingTokens (allLearnings entries))))
       \<and> distinct (rankedTokens (survivingTokens (allLearnings entries)))
       \<and> set (rankedTokens (survivingTokens (allLearnings entries)))
           = set (survivingTokens (allLearnings entries))
       \<and> sorted_wrt (rankedBefore (words (allLearnings entries)))
           (rankedTokens (survivingTokens (allLearnings entries)))"
  using sortedKeywords_plain [OF assms] rankedTokens_sorted [of "allLearnings entries"]
  by (simp add: rankedTokens_def set_firstSeen distinct_firstSeen)

theorem keyword_ranking_witness:
  "list_all plainWord
     (survivingTokens (allLearnings
        [notesEntry ''Misread conditions.'', notesEntry ''misread Again'']))
   \<and> sortedKeywords (allLearnings
        [notesEntry ''Misread conditions.'', notesEntry ''misread Again''])
       = Some [''misread'', ''conditions'', ''again'']"
proof -
  let ?es = "[notesEntry ''Misread conditions.'', notesEntry ''misread Again'']"
  have a: "allLearnings ?es = ''Misread conditions. misread Again''" by code_simp
  have w: "words ''Misread conditions. misread Again''
      = [''misread'', ''conditions'', ''misread'', ''again'']" by code_simp
  have s: "survivingTokens ''Misread conditions. misread Again''
      = [''misread'', ''conditions'', ''misread'', ''again'']"
    unfolding survivingTokens_def w by code_simp
  have p: "list_all plainWord [''misread'', ''conditions'', ''misread'', ''again'']"
    by code_simp
  have t: "take 5 (rankedTokens [''misread'', ''conditions'', ''misread'', ''again''])
      = [''misread'', ''conditions'', ''again'']" by code_simp
  have h: "\<forall>w \<in> set (survivingTokens (allLearnings ?es)). plainWord w"
    using p unfolding a s by (simp only: list_all_iff)
  from keyword_ranking [OF h] have "sortedKeywords (allLearnings ?es)
      = Some (take 5 (rankedTokens (survivingTokens (allLearnings ?es))))" by (rule conjunct1)
  then have "sortedKeywords (allLearnings ?es) = Some [''misread'', ''conditions'', ''again'']"
    unfolding a s t .
  moreover have "list_all plainWord (survivingTokens (allLearnings ?es))"
    unfolding a s by (rule p)
  ultimately show ?thesis by simp
qed

subsection \<open>Determinism of the analysis\<close>

text \<open>
  Where the comparator is consistent, the messages are those of \<open>analysisMessages\<close> on
  every engine; and the messages depend on the notes of the records only.
\<close>

lemma analysisMessagesOn_consistent:
  assumes "analysisMessages entries = Some m"
  shows "analysisMessagesOn engine entries = m"
proof (cases "trim (allLearnings entries) = []")
  case True
  with assms show ?thesis by (simp add: analysisMessages_def analysisMessagesOn_def)
next
  case False
  with assms obtain ks where k: "sortedKeywords (allLearnings entries) = Some ks"
    by (cases "sortedKeywords (allLearnings entries)") (simp_all add: analysisMessages_def)
  then have "sortedKeywordsOn engine (allLearnings entries) = ks"
    by (auto simp: sortedKeywords_def sortedKeywordsOn_def sortByCountOn_def)
  with assms False k show ?thesis
    by (auto simp: analysisMessages_def analysisMessagesOn_def split: if_splits)
qed

lemma analysisMessagesOn_learnings:
  assumes "map learnings entries' = map learnings entries"
  shows "analysisMessagesOn engine entries' = analysisMessagesOn engine entries"
proof -
  from assms have "allLearnings entries' = allLearnings entries"
    by (simp only: allLearnings_def)
  then show ?thesis by (simp only: analysisMessagesOn_def)
qed

text \<open>
  Runs of the component. From a state with the flag clear and no timer, as long as
  all the clicks come with the same entries, at most one timer is waiting, and it
  holds those entries.
\<close>

lemma run_snoc: "run engine (evs @ [ev]) s = dispatch engine (run engine evs s) ev"
  by (simp add: run_def)

lemma run_Cons: "run engine (ev # evs) s = run engine evs (dispatch engine s ev)"
  by (simp add: run_def)

lemma run_ticks:
  "isAnalyzing (run engine (replicate n TipTick) s) = isAnalyzing s
   \<and> analysisResult (run engine (replicate n TipTick) s) = analysisResult s
   \<and> timers (run engine (replicate n TipTick) s) = timers s"
  by (induction n arbitrary: s) (simp_all add: run_def tipInterval_def)

lemma run_once:
  assumes "\<not> isAnalyzing s" and "timers s = []"
  shows "run engine (Click entries # replicate n TipTick @ [TimerFires]) s
     = (run engine (replicate n TipTick) (handleAnalyzeMistakes entries s))
         \<lparr>timers := [], analysisResult := analysisMessagesOn engine entries,
          isAnalyzing := False\<rparr>"
proof -
  let ?u = "run engine (replicate n TipTick) (handleAnalyzeMistakes entries s)"
  have "timers ?u = [entries]"
    using assms run_ticks [of engine n "handleAnalyzeMistakes entries s"]
    by (simp add: handleAnalyzeMistakes_def)
  then have "dispatch engine ?u TimerFires
      = ?u\<lparr>timers := [], analysisResult := analysisMessagesOn engine entries,
           isAnalyzing := False\<rparr>"
    by (simp add: timeoutCallback_def)
  then show ?thesis using assms by (simp add: run_Cons run_snoc)
qed

lemma run_invariant:
  assumes "\<not> isAnalyzing s" and "timers s = []"
    and "list_all (\<lambda>ev. case ev of Click es \<Rightarrow> es = entries | _ \<Rightarrow> True) evs"
  shows "timers (run engine evs s) = (if isAnalyzing (run engine evs s) then [entries] else [])
     \<and> analysisResult (run engine evs s)
         = (if isAnalyzing (run engine evs s) then []
            else if Click entries \<in> set evs then analysisMessagesOn engine entries
            else analysisResult s)
     \<and> (isAnalyzing (run engine evs s) \<longrightarrow> Click entries \<in> set evs)"
  using assms(3)
proof (induction evs rule: rev_induct)
  case Nil
  show ?case using assms(1,2) by (simp add: run_def)
next
  case (snoc ev evs)
  let ?t = "run engine evs s"
  from snoc.prems have p: "list_all (\<lambda>ev. case ev of Click es \<Rightarrow> es = entries | _ \<Rightarrow> True) evs"
    and e: "case ev of Click es \<Rightarrow> es = entries | _ \<Rightarrow> True" by simp_all
  note ih = snoc.IH [OF p]
  show ?case
  proof (cases ev)
    case (Click es)
    with e have "es = entries" by simp
    with Click ih show ?thesis
      by (cases "isAnalyzing ?t") (simp_all add: run_snoc handleAnalyzeMistakes_def)
  next
    case TipTick
    with ih show ?thesis by (simp add: run_snoc tipInterval_def)
  next
    case TimerFires
    with ih show ?thesis
      by (cases "isAnalyzing ?t") (simp_all add: run_snoc timeoutCallback_def)
  qed
qed

text \<open>
  The examples. With the word \<^verbatim>\<open>constructor\<close> among the notes the comparator is not
  consistent, and on an engine that reverses the entries of the table the list is
  the three words in reverse.
\<close>

lemma exampleNotes_messages:
  "analysisMessages exampleNotes
     = Some [''Based on your log, you should focus on:'',
        ''- **Misread**: This appears frequently in your notes.'',
        ''- **Conditions**: This appears frequently in your notes.'',
        ''- **Question**: This appears frequently in your notes.'',
        ''- **Calculation**: This appears frequently in your notes.'',
        ''- **Error**: This appears frequently in your notes.'']"
  by code_simp


lemma exampleNotes_rev_messages:
  "analysisMessages (rev exampleNotes)
     = Some [''Based on your log, you should focus on:'',
        ''- **Misread**: This appears frequently in your notes.'',
        ''- **Calculation**: This appears frequently in your notes.'',
        ''- **Error**: This appears frequently in your notes.'',
        ''- **Table**: This appears frequently in your notes.'',
        ''- **Conditions**: This appears frequently in your notes.'']"
  by code_simp

lemma constructor_messages:
  "analysisMessagesOn rev [notesEntry ''alpha beta1 beta1 constructor'']
     = [''Based on your log, you should focus on:'',
        ''- **Constructor**: This appears frequently in your notes.'',
        ''- **Beta1**: This appears frequently in your notes.'',
        ''- **Alpha**: This appears frequently in your notes.'']"
proof -
  have a: "allLearnings [notesEntry ''alpha beta1 beta1 constructor'']
      = ''alpha beta1 beta1 constructor''" by code_simp
  have w: "words ''alpha beta1 beta1 constructor''
      = [''alpha'', ''beta1'', ''beta1'', ''constructor'']" by code_simp
  have f: "objectEntries (wordFrequencies [''alpha'', ''beta1'', ''beta1'', ''constructor''])
      = [(''alpha'', Count 1), (''beta1'', Count 2), (''constructor'', NotANumber)]"
    by code_simp
  have n: "sortByCount [(''alpha'', Count 1), (''beta1'', Count 2),
      (''constructor'', NotANumber)] = None" by code_simp
  show ?thesis
    unfolding analysisMessagesOn_def sortedKeywordsOn_def sortByCountOn_def a w f n
    by code_simp
qed

text \<open>
  C9. On one engine, the list that an analysis leaves in the state is determined by
  the records: a click in a state with the flag clear and no timer, any number of
  ticks of the tip, then the timer, leave the messages of the records of the click,
  whatever the state showed before, and leave the flag clear and no timer, so that
  the next click finds the same. In every run from such a state in which all the
  clicks come with the same records, however many clicks, ticks and timers and in
  whatever order, the state shows nothing while an analysis is under way, and
  otherwise the messages of these records as soon as there has been a click. The
  messages depend on the notes of the records in their order and on nothing else in
  them, and where the comparator is consistent they do not depend on the engine. The
  order of the records matters: the two example records give one list, and the same
  two in the other order another.
\<close>

theorem analysis_deterministic:
  "(\<not> isAnalyzing s \<and> timers s = [] \<longrightarrow>
      analysisResult (run engine (Click entries # replicate n TipTick @ [TimerFires]) s)
        = analysisMessagesOn engine entries
      \<and> \<not> isAnalyzing (run engine (Click entries # replicate n TipTick @ [TimerFires]) s)
      \<and> timers (run engine (Click entries # replicate n TipTick @ [TimerFires]) s) = [])
   \<and> (\<not> isAnalyzing s \<and> timers s = []
        \<and> list_all (\<lambda>ev. case ev of Click es \<Rightarrow> es = entries | _ \<Rightarrow> True) events \<longrightarrow>
      analysisResult (run engine events s)
        = (if isAnalyzing (run engine events s) then []
           else if Click entries \<in> set events then analysisMessagesOn engine entries
           else analysisResult s))
   \<and> (map learnings entries' = map learnings entries \<longrightarrow>
        analysisMessagesOn engine entries' = analysisMessagesOn engine entries)
   \<and> (analysisMessages entries = Some m \<longrightarrow> analysisMessagesOn engine entries = m)
   \<and> analysisMessagesOn engine exampleNotes
       = [''Based on your log, you should focus on:'',
          ''- **Misread**: This appears frequently in your notes.'',
          ''- **Conditions**: This appears frequently in your notes.'',
          ''- **Question**: This appears frequently in your notes.'',
          ''- **Calculation**: This appears frequently in your notes.'',
          ''- **Error**: This appears frequently in your notes.'']
   \<and> analysisMessagesOn engine (rev exampleNotes)
       = [''Based on your log, you should focus on:'',
          ''- **Misread**: This appears frequently in your notes.'',
          ''- **Calculation**: This appears frequently in your notes.'',
          ''- **Error**: This appears frequently in your notes.'',
          ''- **Table**: This appears frequently in your notes.'',
          ''- **Conditions**: This appears frequently in your notes.'']"
proof (intro conjI impI)
  assume a: "\<not> isAnalyzing s \<and> timers s = []"
  then have r: "run engine (Click entries # replicate n TipTick @ [TimerFires]) s
     = (run engine (replicate n TipTick) (handleAnalyzeMistakes entries s))
         \<lparr>timers := [], analysisResult := analysisMessagesOn engine entries,
          isAnalyzing := False\<rparr>"
    by (intro run_once) simp_all
  show "analysisResult (run engine (Click entries # replicate n TipTick @ [TimerFires]) s)
        = analysisMessagesOn engine entries"
    by (simp only: r) simp
  show "\<not> isAnalyzing (run engine (Click entries # replicate n TipTick @ [TimerFires]) s)"
    by (simp only: r) simp
  show "timers (run engine (Click entries # replicate n TipTick @ [TimerFires]) s) = []"
    by (simp only: r) simp
next
  assume "\<not> isAnalyzing s \<and> timers s = []
        \<and> list_all (\<lambda>ev. case ev of Click es \<Rightarrow> es = entries | _ \<Rightarrow> True) events"
  then have "\<not> isAnalyzing s" and "timers s = []"
    and "list_all (\<lambda>ev. case ev of Click es \<Rightarrow> es = entries | _ \<Rightarrow> True) events"
    by simp_all
  from run_invariant [OF this, of engine]
  show "analysisResult (run engine events s)
        = (if isAnalyzing (run engine events s) then []
           else if Click entries \<in> set events then analysisMessagesOn engine entries
           else analysisResult s)"
    by (rule conjunct1 [OF conjunct2])
next
  assume "map learnings entries' = map learnings entries"
  then show "analysisMessagesOn engine entries' = analysisMessagesOn engine entries"
    by (rule analysisMessagesOn_learnings)
next
  assume "analysisMessages entries = Some m"
  then show "analysisMessagesOn engine entries = m"
    by (rule analysisMessagesOn_consistent)
next
  show "analysisMessagesOn engine exampleNotes
       = [''Based on your log, you should focus on:'',
          ''- **Misread**: This appears frequently in your notes.'',
          ''- **Conditions**: This appears frequently in your notes.'',
          ''- **Question**: This appears frequently in your notes.'',
          ''- **Calculation**: This appears frequently in your notes.'',
          ''- **Error**: This appears frequently in your notes.'']"
    using exampleNotes_messages by (rule analysisMessagesOn_consistent)
  show "analysisMessagesOn engine (rev exampleNotes)
       = [''Based on your log, you should focus on:'',
          ''- **Misread**: This appears frequently in your notes.'',
          ''- **Calculation**: This appears frequently in your notes.'',
          ''- **Error**: This appears frequently in your notes.'',
          ''- **Table**: This appears frequently in your notes.'',
          ''- **Conditions**: This appears frequently in your notes.'']"
    using exampleNotes_rev_messages by (rule analysisMessagesOn_consistent)
qed


theorem analysis_deterministic_witness:
  "\<not> isAnalyzing shownState \<and> timers shownState = []
   \<and> list_all (\<lambda>ev. case ev of Click es \<Rightarrow> es = exampleNotes | _ \<Rightarrow> True) exampleEvents
   \<and> Click exampleNotes \<in> set exampleEvents
   \<and> map learnings [notesEntry ''Misread conditions in the question.'',
          notesEntry ''Calculation error, misread table.''] = map learnings exampleNotes
   \<and> [notesEntry ''Misread conditions in the question.'',
          notesEntry ''Calculation error, misread table.''] \<noteq> exampleNotes
   \<and> analysisMessages exampleNotes
       = Some [''Based on your log, you should focus on:'',
          ''- **Misread**: This appears frequently in your notes.'',
          ''- **Conditions**: This appears frequently in your notes.'',
          ''- **Question**: This appears frequently in your notes.'',
          ''- **Calculation**: This appears frequently in your notes.'',
          ''- **Error**: This appears frequently in your notes.'']
   \<and> analysisResult
         (run rev (Click exampleNotes # replicate 3 TipTick @ [TimerFires]) shownState)
       = [''Based on your log, you should focus on:'',
          ''- **Misread**: This appears frequently in your notes.'',
          ''- **Conditions**: This appears frequently in your notes.'',
          ''- **Question**: This appears frequently in your notes.'',
          ''- **Calculation**: This appears frequently in your notes.'',
          ''- **Error**: This appears frequently in your notes.'']
   \<and> analysisResult (run rev exampleEvents shownState)
       = [''Based on your log, you should focus on:'',
          ''- **Misread**: This appears frequently in your notes.'',
          ''- **Conditions**: This appears frequently in your notes.'',
          ''- **Question**: This appears frequently in your notes.'',
          ''- **Calculation**: This appears frequently in your notes.'',
          ''- **Error**: This appears frequently in your notes.'']
   \<and> analysisMessagesOn rev [notesEntry ''Misread conditions in the question.'',
          notesEntry ''Calculation error, misread table.'']
       = [''Based on your log, you should focus on:'',
          ''- **Misread**: This appears frequently in your notes.'',
          ''- **Conditions**: This appears frequently in your notes.'',
          ''- **Question**: This appears frequently in your notes.'',
          ''- **Calculation**: This appears frequently in your notes.'',
          ''- **Error**: This appears frequently in your notes.'']
   \<and> analysisResult
         (run rev (Click [notesEntry ''alpha beta1 beta1 constructor'']
                    # replicate 2 TipTick @ [TimerFires]) shownState)
       = [''Based on your log, you should focus on:'',
          ''- **Constructor**: This appears frequently in your notes.'',
          ''- **Beta1**: This appears frequently in your notes.'',
          ''- **Alpha**: This appears frequently in your notes.'']"
proof -
  let ?m = "[''Based on your log, you should focus on:'',
          ''- **Misread**: This appears frequently in your notes.'',
          ''- **Conditions**: This appears frequently in your notes.'',
          ''- **Question**: This appears frequently in your notes.'',
          ''- **Calculation**: This appears frequently in your notes.'',
          ''- **Error**: This appears frequently in your notes.'']"
  let ?es = "[notesEntry ''Misread conditions in the question.'',
          notesEntry ''Calculation error, misread table.'']"
  let ?cs = "[notesEntry ''alpha beta1 beta1 constructor'']"
  note T = analysis_deterministic [where s = shownState and engine = rev
      and entries = exampleNotes and n = 3 and events = exampleEvents
      and entries' = ?es and m = ?m]
  note U = analysis_deterministic [where s = shownState and engine = rev
      and entries = ?cs and n = 2 and events = "[]" and entries' = ?cs and m = "[]"]
  have h1: "\<not> isAnalyzing shownState \<and> timers shownState = []"
    by (simp add: shownState_def)
  have h2: "list_all (\<lambda>ev. case ev of Click es \<Rightarrow> es = exampleNotes | _ \<Rightarrow> True)
      exampleEvents"
    by (simp add: exampleEvents_def)
  have h3: "Click exampleNotes \<in> set exampleEvents"
    by (simp add: exampleEvents_def)
  have h4: "map learnings ?es = map learnings exampleNotes"
    by (simp add: notesEntry_def exampleNotes_def)
  have h5: "?es \<noteq> exampleNotes"
    by (simp add: notesEntry_def exampleNotes_def initialFormState_def)
  have h6: "analysisMessages exampleNotes = Some ?m"
    by (rule exampleNotes_messages)
  have h7: "\<not> isAnalyzing (run rev exampleEvents shownState)"
    by (simp add: run_def exampleEvents_def shownState_def handleAnalyzeMistakes_def
        timeoutCallback_def tipInterval_def)
  have v: "analysisMessagesOn rev exampleNotes = ?m"
    by (rule T [THEN conjunct2, THEN conjunct2, THEN conjunct2, THEN conjunct1, THEN mp,
        OF h6])
  have c1: "analysisResult
      (run rev (Click exampleNotes # replicate 3 TipTick @ [TimerFires]) shownState) = ?m"
    using T [THEN conjunct1, THEN mp, OF h1, THEN conjunct1] by (simp only: v)
  have "analysisResult (run rev exampleEvents shownState)
      = (if isAnalyzing (run rev exampleEvents shownState) then []
         else if Click exampleNotes \<in> set exampleEvents
           then analysisMessagesOn rev exampleNotes
         else analysisResult shownState)"
    using h1 h2 by (intro T [THEN conjunct2, THEN conjunct1, THEN mp]) simp
  then have c2: "analysisResult (run rev exampleEvents shownState) = ?m"
    using h3 h7 by (simp only: v if_True if_False)
  have c3: "analysisMessagesOn rev ?es = ?m"
    using T [THEN conjunct2, THEN conjunct2, THEN conjunct1, THEN mp, OF h4]
    by (simp only: v)
  have c4: "analysisResult (run rev (Click ?cs # replicate 2 TipTick @ [TimerFires]) shownState)
      = [''Based on your log, you should focus on:'',
          ''- **Constructor**: This appears frequently in your notes.'',
          ''- **Beta1**: This appears frequently in your notes.'',
          ''- **Alpha**: This appears frequently in your notes.'']"
    using U [THEN conjunct1, THEN mp, OF h1, THEN conjunct1]
    by (simp only: constructor_messages)
  from h1 have "\<not> isAnalyzing shownState" and "timers shownState = []" by simp_all
  with h2 h3 h4 h5 h6 c1 c2 c3 c4 show ?thesis by (intro conjI)
qed

end
